theory Spec2Isabelle
  imports Main "HOL-Library.AList" "HOL-Library.Multiset"
begin

section \<open>Python values and exceptions\<close>

text \<open>
  The values that cross the interfaces of \<^verbatim>\<open>dbxs/_access.py\<close>: column values of a row,
  bound argument values and loader results. Python's \<^verbatim>\<open>None\<close> is a value like the
  others, so \<^verbatim>\<open>Optional[T]\<close> is not a separate type.
\<close>

datatype pyval = PyNone | PyInt int | PyStr string | PyTuple "pyval list"

type_synonym row = "pyval list"

text \<open>
  \<^verbatim>\<open>FrameType\<close> and \<^verbatim>\<open>TracebackType(tb_next, tb_frame, tb_lasti, tb_lineno)\<close>, as far
  as \<^verbatim>\<open>_ExceptionFixer\<close> builds them: a frame is known by the name, file and first line
  of its code object.
\<close>

record FrameType =
  co_name :: string
  co_filename :: string
  co_firstlineno :: nat

datatype traceback = NoTraceback | TracebackType traceback FrameType nat nat

text \<open>
  The exceptions of the module, and the built-in ones its code paths can raise.
  \<^verbatim>\<open>WrongRowShape\<close> carries the loader's module and name and the row (the three parts of
  its message), the traceback given to \<^verbatim>\<open>with_traceback\<close> and the cause given to
  \<^verbatim>\<open>raise ... from e\<close>. \<^verbatim>\<open>ParamMismatch\<close> carries the method name, the recorded
  placeholder names and the parameter names without the receiver.
  \<^verbatim>\<open>Unmodelled\<close> marks a replacement field that uses a conversion, a format
  specification, an attribute or an index: the template language beyond \<^verbatim>\<open>{name}\<close>,
  which this development does not interpret.
\<close>

datatype exn =
    ParamMismatch string "string list" "string list"
  | NotEnoughResults
  | TooManyResults string
  | ExtraneousMethods "string list"
  | WrongRowShape string string row traceback exn
  | TypeError string
  | ValueError string
  | KeyError string
  | AttributeError string
  | OSError string
  | OtherError string
  | Unmodelled string

text \<open>\<^verbatim>\<open>except TypeError\<close> catches \<^verbatim>\<open>TypeError\<close> and its subclass \<^verbatim>\<open>WrongRowShape\<close>.\<close>

fun isTypeError :: "exn \<Rightarrow> bool" where
  "isTypeError (TypeError _) = True"
| "isTypeError (WrongRowShape _ _ _ _ _) = True"
| "isTypeError _ = False"

section \<open>Placeholder rendering\<close>

text \<open>
  \<^verbatim>\<open>IndexCountingParamstyleMap\<close>: \<^verbatim>\<open>__getitem__\<close> appends the name to \<^verbatim>\<open>names\<close> and
  returns the placeholder.
\<close>

record IndexCountingParamstyleMap =
  placeholder :: string
  names :: "string list"

definition getitem :: "IndexCountingParamstyleMap \<Rightarrow> string \<Rightarrow> string \<times> IndexCountingParamstyleMap" where
  "getitem m name = (placeholder m, m\<lparr>names := names m @ [name]\<rparr>)"

text \<open>
  \<^verbatim>\<open>str.format_map\<close>, the built-in that \<^verbatim>\<open>setOn\<close> calls as
  \<^verbatim>\<open>self.sql.format_map(mapInstance)\<close>. The scanner reads the template from left to right:
  \<^verbatim>\<open>{{\<close> and \<^verbatim>\<open>}}\<close> are escaped braces, a single \<^verbatim>\<open>}\<close> or an unclosed \<^verbatim>\<open>{\<close> is a
  \<^verbatim>\<open>ValueError\<close>, and \<^verbatim>\<open>{name}\<close> looks \<^verbatim>\<open>name\<close> up in the mapping with
  \<^verbatim>\<open>__getitem__\<close> and inserts the result. An empty or all-digit field name is positional,
  which \<^verbatim>\<open>format_map\<close> refuses with a \<^verbatim>\<open>ValueError\<close>, as it does a \<^verbatim>\<open>{\<close> inside a field
  name. The messages are those of CPython 3.11. The scanner interprets the fields of the form
  \<^verbatim>\<open>{name}\<close>: at the first \<^verbatim>\<open>!\<close>, \<^verbatim>\<open>:\<close>, \<^verbatim>\<open>.\<close> or \<^verbatim>\<open>[\<close> inside a field it stops with
  \<^verbatim>\<open>Unmodelled\<close>, where Python would go on to convert or format the placeholder token or to
  read an attribute or an item of it. No statement below is about such a template.
\<close>

datatype scan_mode = Text | Open | Close | InField string

definition isDigit :: "char \<Rightarrow> bool" where
  "isDigit c = (c \<in> set ''0123456789'')"

definition positional :: "string \<Rightarrow> bool" where
  "positional f = (\<forall>c \<in> set f. isDigit c)"

definition fieldSpecial :: "char \<Rightarrow> bool" where
  "fieldSpecial c = (c \<in> set ''!:.['')"

fun format_scan ::
  "scan_mode \<Rightarrow> string \<Rightarrow> string \<Rightarrow> IndexCountingParamstyleMap
     \<Rightarrow> exn + (string \<times> IndexCountingParamstyleMap)" where
  "format_scan Text [] out m = Inr (out, m)"
| "format_scan Open [] out m = Inl (ValueError ''Single '{' encountered in format string'')"
| "format_scan Close [] out m = Inl (ValueError ''Single '}' encountered in format string'')"
| "format_scan (InField f) [] out m = Inl (ValueError ''expected '}' before end of string'')"
| "format_scan Text (c # cs) out m =
     (if c = CHR ''{'' then format_scan Open cs out m
      else if c = CHR ''}'' then format_scan Close cs out m
      else format_scan Text cs (out @ [c]) m)"
| "format_scan Close (c # cs) out m =
     (if c = CHR ''}'' then format_scan Text cs (out @ [c]) m
      else Inl (ValueError ''Single '}' encountered in format string''))"
| "format_scan Open (c # cs) out m =
     (if c = CHR ''{'' then format_scan Text cs (out @ [c]) m
      else if c = CHR ''}'' then Inl (ValueError ''Format string contains positional fields'')
      else if fieldSpecial c then Inl (Unmodelled ''replacement field beyond {name}'')
      else format_scan (InField [c]) cs out m)"
| "format_scan (InField f) (c # cs) out m =
     (if c = CHR ''}'' then
        (if positional f then Inl (ValueError ''Format string contains positional fields'')
         else (case getitem m f of (s, m') \<Rightarrow> format_scan Text cs (out @ s) m'))
      else if c = CHR ''{'' then Inl (ValueError ''unexpected '{' in field name'')
      else if fieldSpecial c then Inl (Unmodelled ''replacement field beyond {name}'')
      else format_scan (InField (f @ [c])) cs out m)"

definition format_map :: "string \<Rightarrow> IndexCountingParamstyleMap
    \<Rightarrow> exn + (string \<times> IndexCountingParamstyleMap)" where
  "format_map sql m = format_scan Text sql [] m"

text \<open>
  The table \<^verbatim>\<open>styles\<close>: each style makes a fresh map with its placeholder token.
\<close>

definition styles :: "(string \<times> IndexCountingParamstyleMap) list" where
  "styles =
     [(''qmark'', \<lparr>placeholder = ''?'', names = []\<rparr>),
      (''pyformat'', \<lparr>placeholder = ''%s'', names = []\<rparr>)]"

section \<open>Signatures and bound arguments\<close>

text \<open>
  \<^verbatim>\<open>inspect.signature\<close> of a protocol method, for parameters of the ordinary
  positional-or-keyword kind: each has a name and may have a default. The first parameter is
  the receiver. \<^verbatim>\<open>BoundArguments.arguments\<close> is an ordered dictionary from names to values;
  keyword arguments of a call are a dictionary too (distinct keys).
\<close>

record Parameter =
  p_name :: string
  p_default :: "pyval option"

type_synonym arguments = "(string \<times> pyval) list"

text \<open>
  \<^verbatim>\<open>Signature.bind\<close>: first the positional values are given to the parameters in order, then
  the remaining parameters are looked up among the keyword arguments, then a keyword argument
  that is left over is refused. The messages name the parameter with \<^verbatim>\<open>repr\<close>, which puts an
  identifier between apostrophes.
\<close>

definition quoted :: "string \<Rightarrow> string" where
  "quoted s = [CHR 0x27] @ s @ [CHR 0x27]"

fun bind_positional ::
  "Parameter list \<Rightarrow> pyval list \<Rightarrow> arguments \<Rightarrow> arguments \<Rightarrow> exn + (arguments \<times> Parameter list)" where
  "bind_positional [] [] kw acc = Inr (acc, [])"
| "bind_positional (p # ps) [] kw acc =
     (if map_of kw (p_name p) \<noteq> None then Inr (acc, p # ps)
      else if p_default p \<noteq> None then Inr (acc, p # ps)
      else Inl (TypeError (''missing a required argument: '' @ quoted (p_name p))))"
| "bind_positional [] (v # vs) kw acc = Inl (TypeError ''too many positional arguments'')"
| "bind_positional (p # ps) (v # vs) kw acc =
     (if map_of kw (p_name p) \<noteq> None
      then Inl (TypeError (''multiple values for argument '' @ quoted (p_name p)))
      else bind_positional ps vs kw (acc @ [(p_name p, v)]))"

fun bind_keywords ::
  "Parameter list \<Rightarrow> arguments \<Rightarrow> arguments \<Rightarrow> exn + (arguments \<times> arguments)" where
  "bind_keywords [] kw acc = Inr (acc, kw)"
| "bind_keywords (p # ps) kw acc =
     (case map_of kw (p_name p) of
        None \<Rightarrow>
          (if p_default p = None
           then Inl (TypeError (''missing a required argument: '' @ quoted (p_name p)))
           else bind_keywords ps kw acc)
      | Some v \<Rightarrow> bind_keywords ps (AList.delete (p_name p) kw) (acc @ [(p_name p, v)]))"

definition bind :: "Parameter list \<Rightarrow> pyval list \<Rightarrow> arguments \<Rightarrow> exn + arguments" where
  "bind sig args kw =
     (case bind_positional sig args kw [] of
        Inl e \<Rightarrow> Inl e
      | Inr (acc, rest) \<Rightarrow>
          (case bind_keywords rest kw acc of
             Inl e \<Rightarrow> Inl e
           | Inr (acc', kw') \<Rightarrow>
               (case kw' of
                  [] \<Rightarrow> Inr acc'
                | (name, v) # others \<Rightarrow>
                    Inl (TypeError (''got an unexpected keyword argument '' @ quoted name)))))"

text \<open>
  \<^verbatim>\<open>BoundArguments.apply_defaults\<close>: the arguments are rebuilt in parameter order, a
  parameter without a bound value taking its default when it has one.
\<close>

fun apply_defaults :: "Parameter list \<Rightarrow> arguments \<Rightarrow> arguments" where
  "apply_defaults [] bound = []"
| "apply_defaults (p # ps) bound =
     (case map_of bound (p_name p) of
        Some v \<Rightarrow> (p_name p, v) # apply_defaults ps bound
      | None \<Rightarrow>
          (case p_default p of
             Some d \<Rightarrow> (p_name p, d) # apply_defaults ps bound
           | None \<Rightarrow> apply_defaults ps bound))"

text \<open>
  \<^verbatim>\<open>queryArguments\<close>: \<^verbatim>\<open>[bound.arguments[each] for each in self.names]\<close>; a name that is not
  bound is a \<^verbatim>\<open>KeyError\<close>.
\<close>

fun lookup_each :: "arguments \<Rightarrow> string list \<Rightarrow> exn + pyval list" where
  "lookup_each bound [] = Inr []"
| "lookup_each bound (each # rest) =
     (case map_of bound each of
        None \<Rightarrow> Inl (KeyError each)
      | Some v \<Rightarrow>
          (case lookup_each bound rest of
             Inl e \<Rightarrow> Inl e
           | Inr vs \<Rightarrow> Inr (v # vs)))"

definition queryArguments :: "IndexCountingParamstyleMap \<Rightarrow> arguments \<Rightarrow> exn + pyval list" where
  "queryArguments m bound = lookup_each bound (names m)"

section \<open>Connections and cursors\<close>

text \<open>
  The asynchronous connection and cursor that the module consumes. A connection has a
  \<^verbatim>\<open>paramstyle\<close> and answers a statement with a finite list of rows; a cursor records the
  statements executed on it, holds the rows not yet fetched, and counts the calls of
  \<^verbatim>\<open>fetchone\<close>, \<^verbatim>\<open>fetchall\<close> and \<^verbatim>\<open>close\<close>. Every \<^verbatim>\<open>await\<close> of the source is a sequential
  step on this state.
\<close>

record AsyncCursor =
  driver :: "string \<Rightarrow> pyval list \<Rightarrow> row list"
  executed :: "(string \<times> pyval list) list"
  pending :: "row list"
  fetchone_calls :: nat
  fetchall_calls :: nat
  close_calls :: nat

record AsyncConnection =
  paramstyle :: string
  answers :: "string \<Rightarrow> pyval list \<Rightarrow> row list"

record AccessProxy =
  query_connection :: AsyncConnection

definition cursor :: "AsyncConnection \<Rightarrow> AsyncCursor" where
  "cursor conn =
     \<lparr>driver = answers conn, executed = [], pending = [],
      fetchone_calls = 0, fetchall_calls = 0, close_calls = 0\<rparr>"

definition execute :: "AsyncCursor \<Rightarrow> string \<Rightarrow> pyval list \<Rightarrow> AsyncCursor" where
  "execute cur q params =
     cur\<lparr>executed := executed cur @ [(q, params)], pending := driver cur q params\<rparr>"

definition fetchall :: "AsyncCursor \<Rightarrow> row list \<times> AsyncCursor" where
  "fetchall cur = (pending cur, cur\<lparr>pending := [], fetchall_calls := Suc (fetchall_calls cur)\<rparr>)"

definition fetchone :: "AsyncCursor \<Rightarrow> row option \<times> AsyncCursor" where
  "fetchone cur =
     (case pending cur of
        [] \<Rightarrow> (None, cur\<lparr>fetchone_calls := Suc (fetchone_calls cur)\<rparr>)
      | r # rs \<Rightarrow> (Some r, cur\<lparr>pending := rs, fetchone_calls := Suc (fetchone_calls cur)\<rparr>))"

definition close :: "AsyncCursor \<Rightarrow> AsyncCursor" where
  "close cur = cur\<lparr>close_calls := Suc (close_calls cur)\<rparr>"

section \<open>Error attribution\<close>

text \<open>
  A row-loader is a callable with the metadata that \<^verbatim>\<open>_ExceptionFixer.create\<close> reads off it:
  \<^verbatim>\<open>__module__\<close>, \<^verbatim>\<open>__name__\<close>, what \<^verbatim>\<open>inspect.getsourcefile\<close> returns (a file name or
  \<^verbatim>\<open>None\<close>), and what \<^verbatim>\<open>inspect.getsourcelines\<close> does: it returns the source with the number
  of its first line, or raises (\<^verbatim>\<open>OSError\<close> when the source cannot be found, \<^verbatim>\<open>TypeError\<close>
  for a built-in). Calling the loader as \<^verbatim>\<open>load(db, *row)\<close> returns a value or raises; a row
  of the wrong length raises \<^verbatim>\<open>TypeError\<close>.
\<close>

record Loader =
  l_module :: string
  l_name :: string
  l_sourcefile :: "string option"
  l_sourcelines :: "exn + nat"
  l_call :: "AccessProxy \<Rightarrow> row \<Rightarrow> exn + pyval"

text \<open>
  The frame two levels above \<^verbatim>\<open>create\<close>, \<^verbatim>\<open>realDecorationFrame\<close>: the caller of \<^verbatim>\<open>one\<close>,
  \<^verbatim>\<open>maybe\<close> or \<^verbatim>\<open>many\<close>, with the line it is executing. \<^verbatim>\<open>create\<close> raises what
  \<^verbatim>\<open>getsourcelines\<close> raises.
\<close>

record CallerFrame =
  f_filename :: string
  f_lineno :: nat

record ExceptionFixer =
  loader :: Loader
  definitionLine :: nat
  decorationLine :: nat
  decorationFrame :: FrameType
  definitionFrame :: FrameType

definition create :: "CallerFrame \<Rightarrow> Loader \<Rightarrow> exn + ExceptionFixer" where
  "create realDecorationFrame ld =
     (case l_sourcelines ld of
        Inl e \<Rightarrow> Inl e
      | Inr lnum \<Rightarrow>
          Inr \<lparr>loader = ld,
               definitionLine = lnum,
               decorationLine = f_lineno realDecorationFrame,
               decorationFrame =
                 \<lparr>co_name = ''<<decorated here>>'',
                  co_filename = f_filename realDecorationFrame,
                  co_firstlineno = f_lineno realDecorationFrame\<rparr>,
               definitionFrame =
                 \<lparr>co_name = ''<<defined here>>'',
                  co_filename =
                    (case l_sourcefile ld of
                       None \<Rightarrow> ''unknown definition''
                     | Some definedSourceFile \<Rightarrow>
                         (if definedSourceFile = [] then ''unknown definition''
                          else definedSourceFile)),
                  co_firstlineno = lnum\<rparr>\<rparr>)"

definition reraise :: "ExceptionFixer \<Rightarrow> row \<Rightarrow> exn \<Rightarrow> exn" where
  "reraise fixer r e =
     (let withDecorationAdded =
            TracebackType NoTraceback (decorationFrame fixer) 0 (decorationLine fixer);
          withDefinitionAdded =
            TracebackType withDecorationAdded (definitionFrame fixer) 0 (definitionLine fixer)
      in WrongRowShape (l_module (loader fixer)) (l_name (loader fixer)) r withDefinitionAdded e)"

section \<open>Cardinality loaders\<close>

text \<open>
  What \<^verbatim>\<open>self.load(proxySelf, cur)\<close> returns is a coroutine (awaitable) or an asynchronous
  generator. Both hold the cursor by reference, so each is a function of the cursor's state
  at the moment it runs: a coroutine runs once to a result, a generator runs one
  \<^verbatim>\<open>__anext__\<close> at a time. \<^verbatim>\<open>one\<close>, \<^verbatim>\<open>maybe\<close> and \<^verbatim>\<open>many\<close> are called when the
  annotation is evaluated; each first creates the \<^verbatim>\<open>_ExceptionFixer\<close>, raising what \<^verbatim>\<open>create\<close>
  raises, and then returns the function that \<^verbatim>\<open>self.load\<close> will be. \<^verbatim>\<open>zero\<close> is that function
  itself.
\<close>

datatype gen_step = Yield pyval | StopAsyncIteration | Raise exn

datatype MaybeAgen =
    Coroutine "AsyncCursor \<Rightarrow> (exn + pyval) \<times> AsyncCursor"
  | AsyncGen "AsyncCursor \<Rightarrow> gen_step \<times> AsyncCursor"

definition load_row :: "ExceptionFixer \<Rightarrow> (AccessProxy \<Rightarrow> row \<Rightarrow> exn + pyval) \<Rightarrow> AccessProxy \<Rightarrow> row \<Rightarrow> exn + pyval" where
  "load_row fixer ld db r =
     (case ld db r of
        Inr v \<Rightarrow> Inr v
      | Inl e \<Rightarrow> (if isTypeError e then Inl (reraise fixer r e) else Inl e))"

definition translator ::
  "ExceptionFixer \<Rightarrow> (AccessProxy \<Rightarrow> row \<Rightarrow> exn + pyval) \<Rightarrow> (exn + pyval)
     \<Rightarrow> AccessProxy \<Rightarrow> AsyncCursor \<Rightarrow> (exn + pyval) \<times> AsyncCursor" where
  "translator fixer ld noResults db cur =
     (case fetchall cur of
        (rows, cur') \<Rightarrow>
          (if length rows < 1 then (noResults, cur')
           else if length rows > 1 then (Inl (TooManyResults []), cur')
           else (case rows of
                   [r] \<Rightarrow> (load_row fixer ld db r, cur')
                 | _ \<Rightarrow> (Inl (ValueError ''unpack''), cur'))))"

definition one :: "CallerFrame \<Rightarrow> Loader \<Rightarrow> exn + (AccessProxy \<Rightarrow> MaybeAgen)" where
  "one caller ld =
     (case create caller ld of
        Inl e \<Rightarrow> Inl e
      | Inr fixer \<Rightarrow>
          Inr (\<lambda>db. Coroutine (translator fixer (l_call ld) (Inl NotEnoughResults) db)))"

definition maybe :: "CallerFrame \<Rightarrow> Loader \<Rightarrow> exn + (AccessProxy \<Rightarrow> MaybeAgen)" where
  "maybe caller ld =
     (case create caller ld of
        Inl e \<Rightarrow> Inl e
      | Inr fixer \<Rightarrow>
          Inr (\<lambda>db. Coroutine (translator fixer (l_call ld) (Inr PyNone) db)))"

definition translateMany ::
  "ExceptionFixer \<Rightarrow> (AccessProxy \<Rightarrow> row \<Rightarrow> exn + pyval) \<Rightarrow> AccessProxy
     \<Rightarrow> AsyncCursor \<Rightarrow> gen_step \<times> AsyncCursor" where
  "translateMany fixer ld db cur =
     (case fetchone cur of
        (None, cur') \<Rightarrow> (StopAsyncIteration, cur')
      | (Some r, cur') \<Rightarrow>
          (case load_row fixer ld db r of
             Inr v \<Rightarrow> (Yield v, cur')
           | Inl e \<Rightarrow> (Raise e, cur')))"

definition many :: "CallerFrame \<Rightarrow> Loader \<Rightarrow> exn + (AccessProxy \<Rightarrow> MaybeAgen)" where
  "many caller ld =
     (case create caller ld of
        Inl e \<Rightarrow> Inl e
      | Inr fixer \<Rightarrow> Inr (\<lambda>db. AsyncGen (translateMany fixer (l_call ld) db)))"

definition zero_run :: "AsyncCursor \<Rightarrow> (exn + pyval) \<times> AsyncCursor" where
  "zero_run cur =
     (case fetchone cur of
        (Some r, cur') \<Rightarrow> (Inl (TooManyResults ''statemnts should not return values''), cur')
      | (None, cur') \<Rightarrow> (Inr PyNone, cur'))"

definition zero :: "AccessProxy \<Rightarrow> MaybeAgen" where
  "zero db = Coroutine zero_run"

section \<open>Query declaration metadata\<close>

text \<open>
  \<^verbatim>\<open>QueryMetadata\<close> holds the SQL template and the cardinality loader. A protocol method is
  known by its \<^verbatim>\<open>__name__\<close> and its signature. \<^verbatim>\<open>setOn\<close> renders the template under every
  style, compares the names recorded under \<^verbatim>\<open>qmark\<close> with the parameter names after the
  first, and builds the closure \<^verbatim>\<open>proxyMethod\<close>, which captures the signature, the
  renderings and the loader.
\<close>

record QueryMetadata =
  sql :: string
  load :: "AccessProxy \<Rightarrow> MaybeAgen"

record ProtocolMethod =
  m_name :: string
  m_parameters :: "Parameter list"

record ProxyMethod =
  pm_sig :: "Parameter list"
  pm_precomputedSQL :: "(string \<times> (string \<times> IndexCountingParamstyleMap)) list"
  pm_load :: "AccessProxy \<Rightarrow> MaybeAgen"

fun precompute ::
  "string \<Rightarrow> (string \<times> IndexCountingParamstyleMap) list
     \<Rightarrow> exn + (string \<times> (string \<times> IndexCountingParamstyleMap)) list" where
  "precompute q [] = Inr []"
| "precompute q ((style, mapInstance) # rest) =
     (case format_map q mapInstance of
        Inl e \<Rightarrow> Inl e
      | Inr styled \<Rightarrow>
          (case precompute q rest of
             Inl e \<Rightarrow> Inl e
           | Inr others \<Rightarrow> Inr ((style, styled) # others)))"

definition setOn :: "QueryMetadata \<Rightarrow> ProtocolMethod \<Rightarrow> exn + ProxyMethod" where
  "setOn qm protocolMethod =
     (case precompute (sql qm) styles of
        Inl e \<Rightarrow> Inl e
      | Inr precomputedSQL \<Rightarrow>
          (case map_of precomputedSQL ''qmark'' of
             None \<Rightarrow> Inl (KeyError ''qmark'')
           | Some (sampleSQL, sampleInstance) \<Rightarrow>
               (let selfExcluded = drop 1 (map p_name (m_parameters protocolMethod)) in
                if set (names sampleInstance) \<noteq> set selfExcluded
                then Inl (ParamMismatch (m_name protocolMethod) (names sampleInstance) selfExcluded)
                else Inr \<lparr>pm_sig = m_parameters protocolMethod,
                          pm_precomputedSQL = precomputedSQL,
                          pm_load = load qm\<rparr>)))"

text \<open>
  The annotations: \<^verbatim>\<open>query(sql=..., load=...)\<close> makes the metadata and its decorator sets it on
  the method; \<^verbatim>\<open>statement(sql=...)\<close> is \<^verbatim>\<open>query\<close> with the loader \<^verbatim>\<open>zero\<close>.
\<close>

definition query :: "string \<Rightarrow> (AccessProxy \<Rightarrow> MaybeAgen) \<Rightarrow> ProtocolMethod \<Rightarrow> exn + ProxyMethod" where
  "query q l f = setOn \<lparr>sql = q, load = l\<rparr> f"

definition statement :: "string \<Rightarrow> ProtocolMethod \<Rightarrow> exn + ProxyMethod" where
  "statement q f = query q zero f"

text \<open>
  The coroutine \<^verbatim>\<open>body\<close> of a proxy-method call. Its outcome says how far it came and in
  which state it left the cursor it opened:
  \<^item> \<^verbatim>\<open>NoCursor e\<close>: it raised \<^verbatim>\<open>e\<close> before \<^verbatim>\<open>conn.cursor()\<close>;
  \<^item> \<^verbatim>\<open>Failed e cur\<close>: it raised \<^verbatim>\<open>e\<close> after opening the cursor;
  \<^item> \<^verbatim>\<open>Returned v cur\<close>: the awaitable path returned \<^verbatim>\<open>v\<close>;
  \<^item> \<^verbatim>\<open>Iterating g cur\<close>: the loader gave a generator, \<^verbatim>\<open>maybeai.cursor\<close> was set to the
    cursor and the generator was returned.

  \<^verbatim>\<open>hand_off\<close> is the part of \<^verbatim>\<open>body\<close> after \<^verbatim>\<open>cur.execute\<close>: the loader is called with
  the cursor, and what it returns is awaited, or returned to be iterated.
\<close>

datatype body_outcome =
    NoCursor exn
  | Failed exn AsyncCursor
  | Returned pyval AsyncCursor
  | Iterating "AsyncCursor \<Rightarrow> gen_step \<times> AsyncCursor" AsyncCursor

definition hand_off :: "ProxyMethod \<Rightarrow> AccessProxy \<Rightarrow> AsyncCursor \<Rightarrow> body_outcome" where
  "hand_off pm proxySelf cur =
     (case pm_load pm proxySelf of
        Coroutine run \<Rightarrow>
          (case run cur of
             (Inl e, cur') \<Rightarrow> Failed e cur'
           | (Inr result, cur') \<Rightarrow> Returned result (close cur'))
      | AsyncGen g \<Rightarrow> Iterating g cur)"

definition body :: "ProxyMethod \<Rightarrow> AccessProxy \<Rightarrow> pyval list \<Rightarrow> arguments \<Rightarrow> body_outcome" where
  "body pm proxySelf args kw =
     (let conn = query_connection proxySelf in
      case map_of (pm_precomputedSQL pm) (paramstyle conn) of
        None \<Rightarrow> NoCursor (KeyError (paramstyle conn))
      | Some (styledSQL, styledMap) \<Rightarrow>
          (let cur = cursor conn in
           case bind (pm_sig pm) (PyNone # args) kw of
             Inl e \<Rightarrow> Failed e cur
           | Inr bound \<Rightarrow>
               (case queryArguments styledMap (apply_defaults (pm_sig pm) bound) of
                  Inl e \<Rightarrow> Failed e cur
                | Inr params \<Rightarrow> hand_off pm proxySelf (execute cur styledSQL params))))"

section \<open>The result object\<close>

text \<open>
  \<^verbatim>\<open>MaybeAIterable\<close>. Awaiting it awaits \<^verbatim>\<open>body\<close>. Iterating it runs \<^verbatim>\<open>__aiter__\<close>: the
  body is awaited at the first request for an element, the elements of the loader's
  generator are passed on, and the \<^verbatim>\<open>finally\<close> clause closes \<^verbatim>\<open>self.cursor\<close> when the
  generator is exhausted, when it raises, and when the consumer abandons the iteration and
  the generator is closed. A consumer is described by the number of elements it requests
  before it abandons the iteration.
\<close>

datatype ending = Exhausted | Abandoned | Raised exn

fun consume ::
  "(AsyncCursor \<Rightarrow> gen_step \<times> AsyncCursor) \<Rightarrow> nat \<Rightarrow> AsyncCursor
     \<Rightarrow> (pyval list \<times> ending) \<times> AsyncCursor" where
  "consume g 0 cur = (([], Abandoned), cur)"
| "consume g (Suc k) cur =
     (case g cur of
        (StopAsyncIteration, cur') \<Rightarrow> (([], Exhausted), cur')
      | (Raise e, cur') \<Rightarrow> (([], Raised e), cur')
      | (Yield v, cur') \<Rightarrow>
          (case consume g k cur' of
             ((vs, fin), cur'') \<Rightarrow> ((v # vs, fin), cur'')))"

text \<open>
  The result of an iteration: the elements delivered, how the iteration ended, and the
  final state of the cursor the call opened (if it opened one). Where \<^verbatim>\<open>body\<close> raised or
  took the awaitable path, \<^verbatim>\<open>self.cursor\<close> was never set, and the \<^verbatim>\<open>finally\<close> clause raises
  \<^verbatim>\<open>AttributeError\<close> in place of what was being raised.
\<close>

record iteration =
  delivered :: "pyval list"
  ended :: ending
  call_cursor :: "AsyncCursor option"

definition await_call :: "ProxyMethod \<Rightarrow> AccessProxy \<Rightarrow> pyval list \<Rightarrow> arguments \<Rightarrow> body_outcome" where
  "await_call pm proxySelf args kw = body pm proxySelf args kw"

definition noCursorAttribute :: string where
  "noCursorAttribute = quoted ''MaybeAIterable'' @ '' object has no attribute '' @ quoted ''cursor''"

definition aiter_call ::
  "ProxyMethod \<Rightarrow> AccessProxy \<Rightarrow> pyval list \<Rightarrow> arguments \<Rightarrow> nat \<Rightarrow> iteration" where
  "aiter_call pm proxySelf args kw requests =
     (if requests = 0
      then \<lparr>delivered = [], ended = Abandoned, call_cursor = None\<rparr>
      else
        (case body pm proxySelf args kw of
           NoCursor e \<Rightarrow>
             \<lparr>delivered = [], ended = Raised (AttributeError noCursorAttribute), call_cursor = None\<rparr>
         | Failed e cur \<Rightarrow>
             \<lparr>delivered = [], ended = Raised (AttributeError noCursorAttribute), call_cursor = Some cur\<rparr>
         | Returned v cur \<Rightarrow>
             \<lparr>delivered = [], ended = Raised (AttributeError noCursorAttribute), call_cursor = Some cur\<rparr>
         | Iterating g cur \<Rightarrow>
             (case consume g requests cur of
                ((vs, fin), cur') \<Rightarrow>
                  \<lparr>delivered = vs, ended = fin, call_cursor = Some (close cur')\<rparr>)))"

section \<open>The accessor factory\<close>

text \<open>
  A protocol namespace is the list of the items of the protocol's \<^verbatim>\<open>__dict__\<close>; each value
  is given by what \<^verbatim>\<open>QueryMetadata.loadFrom\<close> finds on it: the metadata that \<^verbatim>\<open>setOn\<close>
  attached, with its \<^verbatim>\<open>proxyMethod\<close>, or \<^verbatim>\<open>None\<close>. \<^verbatim>\<open>PROTOCOL_IGNORED_ATTRIBUTES\<close> is the
  set of the keys of an empty protocol's \<^verbatim>\<open>__dict__\<close>; it depends on the Python version and
  is a parameter here.
\<close>

type_synonym namespace = "(string \<times> ProxyMethod option) list"

fun filter_loop ::
  "string list \<Rightarrow> namespace \<Rightarrow> (string \<times> ProxyMethod) list \<Rightarrow> string list
     \<Rightarrow> (string \<times> ProxyMethod) list \<times> string list" where
  "filter_loop ignored [] yielded extraneous = (yielded, extraneous)"
| "filter_loop ignored ((attrname, v) # rest) yielded extraneous =
     (case v of
        None \<Rightarrow>
          (if attrname \<notin> set ignored
           then filter_loop ignored rest yielded (extraneous @ [attrname])
           else filter_loop ignored rest yielded extraneous)
      | Some qm \<Rightarrow> filter_loop ignored rest (yielded @ [(attrname, qm)]) extraneous)"

text \<open>
  The generator \<^verbatim>\<open>filterProtocolNamespace\<close>, run to its end: the pairs it yields and the
  exception it then raises, if any.
\<close>

definition filterProtocolNamespace ::
  "string list \<Rightarrow> namespace \<Rightarrow> (string \<times> ProxyMethod) list \<times> exn option" where
  "filterProtocolNamespace ignored protocolNamespace =
     (case filter_loop ignored protocolNamespace [] [] of
        (yielded, extraneous) \<Rightarrow>
          (yielded, if extraneous \<noteq> [] then Some (ExtraneousMethods extraneous) else None))"

text \<open>
  The type that \<^verbatim>\<open>accessor\<close> creates with \<^verbatim>\<open>type(name, bases, dict)\<close>; the dictionary
  comprehension stores the pairs in the order the generator yields them.
\<close>

record ProxyType =
  type_name :: string
  bases :: "string list"
  members :: "(string \<times> ProxyMethod) list"

definition accessor :: "string list \<Rightarrow> string \<Rightarrow> namespace \<Rightarrow> exn + ProxyType" where
  "accessor ignored protocolName protocolNamespace =
     (case filterProtocolNamespace ignored protocolNamespace of
        (yielded, Some e) \<Rightarrow> Inl e
      | (yielded, None) \<Rightarrow>
          Inr \<lparr>type_name = ''_'' @ protocolName @ ''_Accessor'',
               bases = [''AccessProxy''],
               members = fold (\<lambda>(name, metadata). AList.update name metadata) yielded []\<rparr>)"

section \<open>Templates as pieces\<close>

text \<open>
  The specification describes a template as literal SQL text with \<^verbatim>\<open>{name}\<close> placeholders in
  it. \<^verbatim>\<open>template_of\<close> writes such a description down as a template string (a brace of a
  literal is doubled, as the template language asks), \<^verbatim>\<open>rendered\<close> is the text the
  specification expects for a placeholder token, and \<^verbatim>\<open>field_names\<close> the names in their
  order of occurrence. A name is valid when it is not positional (not empty, not all digits)
  and holds no brace and none of the characters that start a conversion, a format
  specification, an attribute or an index.
\<close>

datatype piece = Lit string | Field string

fun escape :: "string \<Rightarrow> string" where
  "escape [] = []"
| "escape (c # cs) =
     (if c = CHR ''{'' \<or> c = CHR ''}'' then c # c # escape cs else c # escape cs)"

fun template_of :: "piece list \<Rightarrow> string" where
  "template_of [] = []"
| "template_of (Lit s # ps) = escape s @ template_of ps"
| "template_of (Field n # ps) = ''{'' @ n @ ''}'' @ template_of ps"

fun rendered :: "string \<Rightarrow> piece list \<Rightarrow> string" where
  "rendered token [] = []"
| "rendered token (Lit s # ps) = s @ rendered token ps"
| "rendered token (Field n # ps) = token @ rendered token ps"

fun field_names :: "piece list \<Rightarrow> string list" where
  "field_names [] = []"
| "field_names (Lit s # ps) = field_names ps"
| "field_names (Field n # ps) = n # field_names ps"

definition plain_char :: "char \<Rightarrow> bool" where
  "plain_char c = (c \<noteq> CHR ''{'' \<and> c \<noteq> CHR ''}'' \<and> \<not> fieldSpecial c)"

definition valid_name :: "string \<Rightarrow> bool" where
  "valid_name n = (\<not> positional n \<and> (\<forall>c \<in> set n. plain_char c))"

fun valid_pieces :: "piece list \<Rightarrow> bool" where
  "valid_pieces [] = True"
| "valid_pieces (Lit s # ps) = valid_pieces ps"
| "valid_pieces (Field n # ps) = (valid_name n \<and> valid_pieces ps)"

section \<open>Annotations and attribution\<close>

text \<open>
  An annotation as it stands in the source of an interface: the place where
  \<^verbatim>\<open>@query(sql=..., load=...)\<close> is written, and its two arguments. \<^verbatim>\<open>query\<close> receives the
  arguments only. \<^verbatim>\<open>attribution\<close> reads the file and line of each entry of the traceback
  that a \<^verbatim>\<open>WrongRowShape\<close> carries, outermost entry first.
\<close>

record Annotation =
  a_site :: CallerFrame
  a_sql :: string
  a_load :: "AccessProxy \<Rightarrow> MaybeAgen"

definition annotate :: "Annotation \<Rightarrow> ProtocolMethod \<Rightarrow> exn + ProxyMethod" where
  "annotate a f = query (a_sql a) (a_load a) f"

fun sites :: "traceback \<Rightarrow> (string \<times> nat) list" where
  "sites NoTraceback = []"
| "sites (TracebackType tb_next tb_frame tb_lasti tb_lineno) =
     (co_filename tb_frame, tb_lineno) # sites tb_next"

fun attribution :: "exn \<Rightarrow> (string \<times> nat) list" where
  "attribution (WrongRowShape m n r tb e) = sites tb"
| "attribution _ = []"

section \<open>An example declaration\<close>

text \<open>
  The declaration of the specification's scenario, used to run the definitions on concrete
  inputs: a protocol method \<^verbatim>\<open>getName(self, userId)\<close> annotated with
  \<^verbatim>\<open>SELECT name FROM users WHERE id = {userId}\<close>, a loader \<^verbatim>\<open>loadName(db, name)\<close> that accepts
  rows of one column, and a connection that answers every statement with given rows.
\<close>

definition loadName :: Loader where
  "loadName =
     \<lparr>l_module = ''app.users'', l_name = ''loadName'',
      l_sourcefile = Some ''app/users.py'', l_sourcelines = Inr 10,
      l_call = (\<lambda>db r. case r of
                   [name] \<Rightarrow> Inr name
                 | _ \<Rightarrow> Inl (TypeError ''loadName() takes 2 positional arguments''))\<rparr>"

definition annotationSite :: CallerFrame where
  "annotationSite = \<lparr>f_filename = ''app/queries.py'', f_lineno = 20\<rparr>"

definition usersConnection :: "string \<Rightarrow> row list \<Rightarrow> AsyncConnection" where
  "usersConnection style rows = \<lparr>paramstyle = style, answers = (\<lambda>q params. rows)\<rparr>"

definition usersProxy :: "string \<Rightarrow> row list \<Rightarrow> AccessProxy" where
  "usersProxy style rows = \<lparr>query_connection = usersConnection style rows\<rparr>"

definition executedCursor :: "row list \<Rightarrow> AsyncCursor" where
  "executedCursor rows =
     execute (cursor (usersConnection ''qmark'' rows)) ''SELECT name FROM users WHERE id = ?'' [PyInt 7]"

definition getName :: ProtocolMethod where
  "getName =
     \<lparr>m_name = ''getName'',
      m_parameters = [\<lparr>p_name = ''self'', p_default = None\<rparr>,
                      \<lparr>p_name = ''userId'', p_default = None\<rparr>]\<rparr>"

definition getNameSQL :: string where
  "getNameSQL = ''SELECT name FROM users WHERE id = {userId}''"

definition getNamePieces :: "piece list" where
  "getNamePieces = [Lit ''SELECT name FROM users WHERE id = '', Field ''userId'']"

text \<open>
  The proxy method that \<^verbatim>\<open>setOn\<close> builds for this declaration with a loader \<^verbatim>\<open>l\<close>, and the
  state of the call's cursor after \<^verbatim>\<open>fetchall\<close> and after a number of \<^verbatim>\<open>fetchone\<close> calls.
\<close>

definition getNameProxy :: "(AccessProxy \<Rightarrow> MaybeAgen) \<Rightarrow> ProxyMethod" where
  "getNameProxy l =
     \<lparr>pm_sig = m_parameters getName,
      pm_precomputedSQL =
        [(''qmark'', (''SELECT name FROM users WHERE id = ?'',
                      \<lparr>placeholder = ''?'', names = [''userId'']\<rparr>)),
         (''pyformat'', (''SELECT name FROM users WHERE id = %s'',
                         \<lparr>placeholder = ''%s'', names = [''userId'']\<rparr>))],
      pm_load = l\<rparr>"

definition fetchedAll :: "row list \<Rightarrow> AsyncCursor" where
  "fetchedAll rows = (executedCursor rows)\<lparr>pending := [], fetchall_calls := 1\<rparr>"

definition fetchedOne :: "row list \<Rightarrow> nat \<Rightarrow> AsyncCursor" where
  "fetchedOne rows k = (executedCursor rows)\<lparr>pending := drop k rows, fetchone_calls := k\<rparr>"

text \<open>
  A second way to write the same declaration: the loader is wrapped once, with
  \<^verbatim>\<open>loadOneName = one(loadName)\<close> at line 5 of \<^verbatim>\<open>app/loaders.py\<close>, and the annotation at line 20
  of \<^verbatim>\<open>app/queries.py\<close> is \<^verbatim>\<open>@query(sql=..., load=loadOneName)\<close>. \<^verbatim>\<open>rejectedShape\<close> is the
  error of a call of it whose row has two columns.
\<close>

definition loaderSite :: CallerFrame where
  "loaderSite = \<lparr>f_filename = ''app/loaders.py'', f_lineno = 5\<rparr>"

definition sharedAnnotation :: Annotation where
  "sharedAnnotation =
     \<lparr>a_site = annotationSite, a_sql = getNameSQL, a_load = projr (one loaderSite loadName)\<rparr>"

definition rejectedShape :: exn where
  "rejectedShape =
     WrongRowShape ''app.users'' ''loadName'' [PyStr ''ann'', PyInt 3]
       (TracebackType
          (TracebackType NoTraceback
             \<lparr>co_name = ''<<decorated here>>'', co_filename = ''app/loaders.py'',
              co_firstlineno = 5\<rparr> 0 5)
          \<lparr>co_name = ''<<defined here>>'', co_filename = ''app/users.py'',
           co_firstlineno = 10\<rparr> 0 10)
       (TypeError ''loadName() takes 2 positional arguments'')"

text \<open>
  A statement whose template uses a name twice: \<^verbatim>\<open>rename(self, userId, name)\<close>. And a query
  whose last parameter has a default: \<^verbatim>\<open>listUsers(self, minAge, limit=10)\<close>.
\<close>

definition renameSQL :: string where
  "renameSQL = ''UPDATE users SET first = {name}, nick = {name} WHERE id = {userId}''"

definition renamePieces :: "piece list" where
  "renamePieces =
     [Lit ''UPDATE users SET first = '', Field ''name'', Lit '', nick = '', Field ''name'',
      Lit '' WHERE id = '', Field ''userId'']"

definition rename :: ProtocolMethod where
  "rename =
     \<lparr>m_name = ''rename'',
      m_parameters = [\<lparr>p_name = ''self'', p_default = None\<rparr>,
                      \<lparr>p_name = ''userId'', p_default = None\<rparr>,
                      \<lparr>p_name = ''name'', p_default = None\<rparr>]\<rparr>"

definition renameProxy :: ProxyMethod where
  "renameProxy =
     \<lparr>pm_sig = m_parameters rename,
      pm_precomputedSQL =
        [(''qmark'', (''UPDATE users SET first = ?, nick = ? WHERE id = ?'',
                      \<lparr>placeholder = ''?'', names = [''name'', ''name'', ''userId'']\<rparr>)),
         (''pyformat'', (''UPDATE users SET first = %s, nick = %s WHERE id = %s'',
                         \<lparr>placeholder = ''%s'', names = [''name'', ''name'', ''userId'']\<rparr>))],
      pm_load = zero\<rparr>"

definition listUsersPieces :: "piece list" where
  "listUsersPieces =
     [Lit ''SELECT name FROM users WHERE age >= '', Field ''minAge'', Lit '' LIMIT '',
      Field ''limit'']"

definition listUsers :: ProtocolMethod where
  "listUsers =
     \<lparr>m_name = ''listUsers'',
      m_parameters = [\<lparr>p_name = ''self'', p_default = None\<rparr>,
                      \<lparr>p_name = ''minAge'', p_default = None\<rparr>,
                      \<lparr>p_name = ''limit'', p_default = Some (PyInt 10)\<rparr>]\<rparr>"

definition listUsersProxy :: "(AccessProxy \<Rightarrow> MaybeAgen) \<Rightarrow> ProxyMethod" where
  "listUsersProxy l =
     \<lparr>pm_sig = m_parameters listUsers,
      pm_precomputedSQL =
        [(''qmark'', (''SELECT name FROM users WHERE age >= ? LIMIT ?'',
                      \<lparr>placeholder = ''?'', names = [''minAge'', ''limit'']\<rparr>)),
         (''pyformat'', (''SELECT name FROM users WHERE age >= %s LIMIT %s'',
                         \<lparr>placeholder = ''%s'', names = [''minAge'', ''limit'']\<rparr>))],
      pm_load = l\<rparr>"

text \<open>
  The names that a proxy method recorded for a style, the specification's
  \<^verbatim>\<open>placeholderOrder\<close>.
\<close>

definition placeholderOrder :: "ProxyMethod \<Rightarrow> string \<Rightarrow> string list" where
  "placeholderOrder pm style =
     (case map_of (pm_precomputedSQL pm) style of
        None \<Rightarrow> []
      | Some (styledSQL, styledMap) \<Rightarrow> names styledMap)"

text \<open>
  The loaders of the example declaration when it is written with \<^verbatim>\<open>one(loadName)\<close> or
  \<^verbatim>\<open>many(loadName)\<close> inside the annotation.
\<close>

definition loadOneName :: "AccessProxy \<Rightarrow> MaybeAgen" where
  "loadOneName = projr (one annotationSite loadName)"

definition loadManyName :: "AccessProxy \<Rightarrow> MaybeAgen" where
  "loadManyName = projr (many annotationSite loadName)"

text \<open>
  A value of \<^verbatim>\<open>PROTOCOL_IGNORED_ATTRIBUTES\<close>: the keys of the \<^verbatim>\<open>__dict__\<close> of a protocol class
  with an empty body under CPython 3.11. The namespace of a protocol holds these attributes
  beside what its body declares; \<^verbatim>\<open>usersNamespace\<close> is that of a protocol whose body has a
  docstring, an \<^verbatim>\<open>__init__\<close> method and the annotated method \<^verbatim>\<open>getName\<close>, and
  \<^verbatim>\<open>helperNamespace\<close> that of one which also declares a plain method \<^verbatim>\<open>helper\<close>.
\<close>

definition emptyProtocolKeys :: "string list" where
  "emptyProtocolKeys =
     [''__module__'', ''__doc__'', ''__dict__'', ''__weakref__'', ''__parameters__'',
      ''_is_protocol'', ''__subclasshook__'', ''__init__'', ''__abstractmethods__'',
      ''_abc_impl'']"

definition usersNamespace :: namespace where
  "usersNamespace =
     [(''__module__'', None), (''__doc__'', None), (''__init__'', None),
      (''getName'', Some (getNameProxy zero)), (''__dict__'', None), (''__weakref__'', None),
      (''__parameters__'', None), (''_is_protocol'', None), (''__subclasshook__'', None),
      (''__abstractmethods__'', None), (''_abc_impl'', None)]"

definition helperNamespace :: namespace where
  "helperNamespace =
     [(''__module__'', None), (''__doc__'', None), (''__init__'', None),
      (''getName'', Some (getNameProxy zero)), (''helper'', None), (''__dict__'', None),
      (''__weakref__'', None), (''__parameters__'', None), (''_is_protocol'', None),
      (''__subclasshook__'', None), (''__abstractmethods__'', None), (''_abc_impl'', None)]"

section \<open>Rendering: lemmas\<close>

lemma scan_escape:
  "format_scan Text (escape s @ rest) out m = format_scan Text rest (out @ s) m"
  by (induction s arbitrary: out) auto

lemma scan_in_field:
  assumes "\<forall>c \<in> set n. plain_char c" and "\<not> positional (f @ n)"
  shows "format_scan (InField f) (n @ CHR ''}'' # rest) out m =
         format_scan Text rest (out @ placeholder m) (m\<lparr>names := names m @ [f @ n]\<rparr>)"
  using assms
proof (induction n arbitrary: f)
  case Nil
  then show ?case by (simp add: getitem_def)
next
  case (Cons c n)
  from Cons.prems have c: "plain_char c" and n: "\<forall>c \<in> set n. plain_char c" by simp_all
  from Cons.prems have "\<not> positional ((f @ [c]) @ n)" by simp
  from Cons.IH [OF n this] c show ?case by (simp add: plain_char_def)
qed

lemma scan_field:
  assumes "valid_name n"
  shows "format_scan Text (CHR ''{'' # n @ CHR ''}'' # rest) out m =
         format_scan Text rest (out @ placeholder m) (m\<lparr>names := names m @ [n]\<rparr>)"
proof (cases n)
  case Nil
  with assms show ?thesis by (simp add: valid_name_def positional_def)
next
  case (Cons c n')
  from assms Cons have c: "plain_char c" and n': "\<forall>c \<in> set n'. plain_char c"
    and np: "\<not> positional ([c] @ n')"
    by (simp_all add: valid_name_def)
  from scan_in_field [OF n' np] c Cons show ?thesis by (simp add: plain_char_def)
qed

lemma scan_pieces:
  assumes "valid_pieces ps"
  shows "format_scan Text (template_of ps @ rest) out m =
         format_scan Text rest (out @ rendered (placeholder m) ps)
           (m\<lparr>names := names m @ field_names ps\<rparr>)"
  using assms
proof (induction ps arbitrary: out m rule: template_of.induct)
  case 1
  then show ?case by simp
next
  case (2 s ps)
  then show ?case by (simp add: scan_escape)
next
  case (3 n ps)
  from "3.prems" have n: "valid_name n" and ps: "valid_pieces ps" by simp_all
  have "format_scan Text (template_of (Field n # ps) @ rest) out m =
        format_scan Text (CHR ''{'' # n @ CHR ''}'' # (template_of ps @ rest)) out m"
    by simp
  also have "\<dots> = format_scan Text (template_of ps @ rest) (out @ placeholder m)
                      (m\<lparr>names := names m @ [n]\<rparr>)"
    by (rule scan_field [OF n])
  also have "\<dots> = format_scan Text rest
       (out @ rendered (placeholder m) (Field n # ps))
       (m\<lparr>names := names m @ field_names (Field n # ps)\<rparr>)"
    by (simp add: "3.IH" [OF ps])
  finally show ?case .
qed

lemma format_map_pieces:
  assumes "valid_pieces ps"
  shows "format_map (template_of ps) \<lparr>placeholder = token, names = []\<rparr> =
         Inr (rendered token ps, \<lparr>placeholder = token, names = field_names ps\<rparr>)"
  using scan_pieces [OF assms, of "[]" "[]" "\<lparr>placeholder = token, names = []\<rparr>"]
  by (simp add: format_map_def)

text \<open>
  Conversely, every template that \<^verbatim>\<open>format_map\<close> renders (in the fragment that is
  interpreted here) is the template of valid pieces: statements about the templates of valid
  pieces are statements about all those templates.
\<close>

lemma scan_is_pieces:
  "format_scan mode s out m = Inr r \<Longrightarrow>
     (case mode of
        Text \<Rightarrow> \<exists>ps. valid_pieces ps \<and> s = template_of ps
      | Open \<Rightarrow> \<exists>ps. valid_pieces ps \<and> CHR ''{'' # s = template_of ps
      | Close \<Rightarrow> \<exists>ps. valid_pieces ps \<and> CHR ''}'' # s = template_of ps
      | InField f \<Rightarrow>
          (\<forall>c \<in> set f. plain_char c) \<longrightarrow>
          (\<exists>ps. valid_pieces ps \<and> CHR ''{'' # f @ s = template_of ps))"
proof (induction mode s out m arbitrary: r rule: format_scan.induct)
  case (1 out m)
  have "valid_pieces [] \<and> [] = template_of []" by simp
  then show ?case by (simp del: valid_pieces.simps template_of.simps) blast
next
  case (5 c cs out m)
  show ?case
  proof (cases "c = CHR ''{''")
    case True
    with 5 show ?thesis by simp
  next
    case False
    show ?thesis
    proof (cases "c = CHR ''}''")
      case True
      with 5 False show ?thesis by simp
    next
      case notclose: False
      with 5 False obtain ps where ps: "valid_pieces ps" "cs = template_of ps" by auto
      with False notclose have "valid_pieces (Lit [c] # ps) \<and> c # cs = template_of (Lit [c] # ps)"
        by simp
      then show ?thesis by (simp del: valid_pieces.simps template_of.simps) blast
    qed
  qed
next
  case (6 c cs out m)
  then have c: "c = CHR ''}''" by (auto split: if_splits)
  with 6 obtain ps where ps: "valid_pieces ps" "cs = template_of ps" by auto
  with c have "valid_pieces (Lit ''}'' # ps) \<and> CHR ''}'' # c # cs = template_of (Lit ''}'' # ps)"
    by simp
  then show ?case by (simp del: valid_pieces.simps template_of.simps) blast
next
  case (7 c cs out m)
  show ?case
  proof (cases "c = CHR ''{''")
    case True
    with 7 obtain ps where ps: "valid_pieces ps" "cs = template_of ps" by auto
    with True have "valid_pieces (Lit ''{'' # ps) \<and> CHR ''{'' # c # cs = template_of (Lit ''{'' # ps)"
      by simp
    then show ?thesis by (simp del: valid_pieces.simps template_of.simps) blast
  next
    case False
    with 7 have nc: "c \<noteq> CHR ''}''" and ns: "\<not> fieldSpecial c"
      and run: "format_scan (InField [c]) cs out m = Inr r"
      by (auto split: if_splits)
    from False nc ns have "plain_char c" by (simp add: plain_char_def)
    with 7(2) [OF False nc ns run] show ?thesis by simp
  qed
next
  case (8 f c cs out m)
  show ?case
  proof (cases "c = CHR ''}''")
    case True
    with 8 have np: "\<not> positional f"
      and run: "format_scan Text cs (out @ fst (getitem m f)) (snd (getitem m f)) = Inr r"
      by (auto split: if_splits prod.splits)
    from 8(1) [OF True np _ run] obtain ps where ps: "valid_pieces ps" "cs = template_of ps"
      by (auto simp: prod_eq_iff)
    {
      assume plain: "\<forall>c \<in> set f. plain_char c"
      with np ps True have "valid_pieces (Field f # ps) \<and>
          CHR ''{'' # f @ c # cs = template_of (Field f # ps)"
        by (simp add: valid_name_def)
      then have "\<exists>ps. valid_pieces ps \<and> CHR ''{'' # f @ c # cs = template_of ps" by blast
    }
    then show ?thesis by simp
  next
    case False
    with 8 have no: "c \<noteq> CHR ''{''" and ns: "\<not> fieldSpecial c"
      and run: "format_scan (InField (f @ [c])) cs out m = Inr r"
      by (auto split: if_splits)
    from False no ns have "plain_char c" by (simp add: plain_char_def)
    with 8(2) [OF False no ns run] show ?thesis by simp
  qed
qed simp_all

lemma rendered_is_pieces:
  assumes "format_map q m = Inr r"
  shows "\<exists>ps. valid_pieces ps \<and> q = template_of ps"
  using scan_is_pieces [of Text q "[]" m r] assms by (simp add: format_map_def)

section \<open>Binding arguments: lemmas\<close>

lemma bind_positional_Inr:
  "bind_positional sig args kw acc = Inr (acc', rest) \<Longrightarrow>
     length args \<le> length sig \<and> rest = drop (length args) sig \<and>
     fst ` set acc' = fst ` set acc \<union> p_name ` set (take (length args) sig)"
proof (induction sig args kw acc rule: bind_positional.induct)
  case (4 p ps v vs kw acc)
  then show ?case by (auto split: if_splits)
qed (auto split: if_splits)

lemma map_of_delete_Some:
  "map_of (AList.delete k kw) n = Some v \<Longrightarrow> map_of kw n = Some v"
  by (simp add: delete_conv' split: if_splits)

lemma keys_delete_subset: "fst ` set (AList.delete k kw) \<subseteq> fst ` set kw"
  by (rule dom_delete_subset)

lemma bind_keywords_Inr:
  "bind_keywords rest kw acc = Inr (acc', kw') \<Longrightarrow>
     fst ` set acc \<subseteq> fst ` set acc' \<and>
     fst ` set acc' \<subseteq> fst ` set acc \<union> fst ` set kw \<and>
     (\<forall>p \<in> set rest. p_name p \<in> fst ` set acc' \<or> p_default p \<noteq> None)"
proof (induction rest arbitrary: kw acc)
  case Nil
  then show ?case by simp
next
  case (Cons p ps)
  show ?case
  proof (cases "map_of kw (p_name p)")
    case None
    from None Cons.prems obtain dv where dv: "p_default p = Some dv"
      by (cases "p_default p") simp_all
    then have d: "p_default p \<noteq> None" by simp
    from None dv Cons.prems have run: "bind_keywords ps kw acc = Inr (acc', kw')"
      by simp
    note ih = Cons.IH [OF run]
    from ih have a: "fst ` set acc \<subseteq> fst ` set acc'" by (rule conjunct1)
    from ih have b: "fst ` set acc' \<subseteq> fst ` set acc \<union> fst ` set kw"
      by (rule conjunct1 [OF conjunct2])
    from ih have c: "\<forall>q \<in> set ps. p_name q \<in> fst ` set acc' \<or> p_default q \<noteq> None"
      by (rule conjunct2 [OF conjunct2])
    from c d have c': "\<forall>q \<in> set (p # ps). p_name q \<in> fst ` set acc' \<or> p_default q \<noteq> None"
      by simp
    from a b c' show ?thesis by (intro conjI)
  next
    case (Some v)
    with Cons.prems have run:
      "bind_keywords ps (AList.delete (p_name p) kw) (acc @ [(p_name p, v)]) = Inr (acc', kw')"
      by simp
    have "(p_name p, v) \<in> set kw" by (rule map_of_SomeD [OF Some])
    then have key: "p_name p \<in> fst ` set kw" by force
    note ih = Cons.IH [OF run]
    have ext: "fst ` set (acc @ [(p_name p, v)]) = insert (p_name p) (fst ` set acc)" by simp
    from ih have a: "insert (p_name p) (fst ` set acc) \<subseteq> fst ` set acc'"
      unfolding ext by (rule conjunct1)
    from ih have b: "fst ` set acc' \<subseteq>
        insert (p_name p) (fst ` set acc) \<union> fst ` set (AList.delete (p_name p) kw)"
      unfolding ext by (rule conjunct1 [OF conjunct2])
    from ih have c: "\<forall>q \<in> set ps. p_name q \<in> fst ` set acc' \<or> p_default q \<noteq> None"
      by (rule conjunct2 [OF conjunct2])
    from a have a1: "fst ` set acc \<subseteq> fst ` set acc'" and a2: "p_name p \<in> fst ` set acc'"
      by simp_all
    have sub: "fst ` set (AList.delete (p_name p) kw) \<subseteq> fst ` set kw"
      by (rule dom_delete_subset)
    have b': "fst ` set acc' \<subseteq> fst ` set acc \<union> fst ` set kw"
    proof
      fix x assume "x \<in> fst ` set acc'"
      with b have "x = p_name p \<or> x \<in> fst ` set acc \<or> x \<in> fst ` set (AList.delete (p_name p) kw)"
        by (simp add: subset_iff)
      with key sub show "x \<in> fst ` set acc \<union> fst ` set kw"
        by blast
    qed
    from c a2 have c': "\<forall>q \<in> set (p # ps). p_name q \<in> fst ` set acc' \<or> p_default q \<noteq> None"
      by simp
    from a1 b' c' show ?thesis by (intro conjI)
  qed
qed

lemma bind_Inr:
  assumes "bind sig args kw = Inr bound"
  shows "length args \<le> length sig"
    and "p_name ` set (take (length args) sig) \<subseteq> fst ` set bound"
    and "fst ` set bound \<subseteq> p_name ` set (take (length args) sig) \<union> fst ` set kw"
    and "\<forall>p \<in> set sig. map_of bound (p_name p) \<noteq> None \<or> p_default p \<noteq> None"
proof -
  from assms obtain acc rest kw' where
    pos: "bind_positional sig args kw [] = Inr (acc, rest)" and
    key: "bind_keywords rest kw acc = Inr (bound, kw')"
    by (auto simp: bind_def split: sum.splits prod.splits list.splits)
  note P = bind_positional_Inr [OF pos]
  note K = bind_keywords_Inr [OF key]
  from P show "length args \<le> length sig" by simp
  from P K show "p_name ` set (take (length args) sig) \<subseteq> fst ` set bound" by auto
  from P K show "fst ` set bound \<subseteq> p_name ` set (take (length args) sig) \<union> fst ` set kw" by auto
  have inkeys: "map_of bound n \<noteq> None" if "n \<in> fst ` set bound" for n
    using that by (simp add: map_of_eq_None_iff)
  show "\<forall>p \<in> set sig. map_of bound (p_name p) \<noteq> None \<or> p_default p \<noteq> None"
  proof
    fix p assume "p \<in> set sig"
    then have "p \<in> set (take (length args) sig) \<or> p \<in> set rest"
      using P by (metis Un_iff append_take_drop_id set_append)
    then show "map_of bound (p_name p) \<noteq> None \<or> p_default p \<noteq> None"
    proof
      assume "p \<in> set (take (length args) sig)"
      with P K have "p_name p \<in> fst ` set bound" by auto
      then show ?thesis using inkeys by blast
    next
      assume "p \<in> set rest"
      with K have "p_name p \<in> fst ` set bound \<or> p_default p \<noteq> None" by blast
      then show ?thesis using inkeys by blast
    qed
  qed
qed

lemma bind_positional_Inl:
  "bind_positional sig args kw acc = Inl e \<Longrightarrow> \<exists>msg. e = TypeError msg"
  by (induction sig args kw acc rule: bind_positional.induct) (auto split: if_splits)

lemma bind_keywords_Inl:
  "bind_keywords rest kw acc = Inl e \<Longrightarrow> \<exists>msg. e = TypeError msg"
  by (induction rest kw acc rule: bind_keywords.induct) (auto split: if_splits option.splits)

lemma bind_Inl: "bind sig args kw = Inl e \<Longrightarrow> \<exists>msg. e = TypeError msg"
  by (auto simp: bind_def split: sum.splits prod.splits list.splits
      dest: bind_positional_Inl bind_keywords_Inl)

lemma lookup_each_Inl: "lookup_each bound ns = Inl e \<Longrightarrow> \<exists>k. e = KeyError k"
  by (induction ns arbitrary: e) (auto split: option.splits sum.splits)

lemma apply_defaults_bound:
  "p \<in> set sig \<Longrightarrow> map_of bound (p_name p) = Some v \<Longrightarrow>
     map_of (apply_defaults sig bound) (p_name p) = Some v"
  by (induction sig) (auto split: option.splits)

lemma apply_defaults_keys:
  "fst ` set (apply_defaults sig bound) \<subseteq> p_name ` set sig"
  by (induction sig) (auto split: option.splits)

lemma apply_defaults_default:
  "distinct (map p_name sig) \<Longrightarrow> p \<in> set sig \<Longrightarrow> map_of bound (p_name p) = None \<Longrightarrow>
     map_of (apply_defaults sig bound) (p_name p) = p_default p"
proof (induction sig)
  case Nil
  then show ?case by simp
next
  case (Cons a sig)
  show ?case
  proof (cases "p = a")
    case True
    have "p_name a \<notin> fst ` set (apply_defaults sig bound)"
      using Cons.prems(1) apply_defaults_keys [of sig bound] by auto
    then have "map_of (apply_defaults sig bound) (p_name a) = None"
      by (simp add: map_of_eq_None_iff)
    with True Cons.prems show ?thesis by (cases "p_default a") simp_all
  next
    case False
    with Cons.prems have p: "p \<in> set sig" by simp
    have "p_name a \<notin> p_name ` set sig" using Cons.prems(1) by simp
    with p have ne: "p_name p \<noteq> p_name a" by (metis imageI)
    from Cons.IH [OF _ p Cons.prems(3)] Cons.prems(1) ne show ?thesis
      by (auto split: option.splits)
  qed
qed

lemma apply_defaults_total:
  "\<forall>p \<in> set sig. map_of bound (p_name p) \<noteq> None \<or> p_default p \<noteq> None \<Longrightarrow>
     p \<in> set sig \<Longrightarrow> map_of (apply_defaults sig bound) (p_name p) \<noteq> None"
  by (induction sig) (auto split: option.splits)

lemma lookup_each_Inr:
  "\<forall>n \<in> set ns. map_of bound n \<noteq> None \<Longrightarrow>
     \<exists>vs. lookup_each bound ns = Inr vs \<and> length vs = length ns \<and>
          (\<forall>i < length ns. map_of bound (ns ! i) = Some (vs ! i))"
proof (induction ns)
  case Nil
  then show ?case by simp
next
  case (Cons n ns)
  then obtain v where v: "map_of bound n = Some v" by auto
  from Cons obtain vs where vs: "lookup_each bound ns = Inr vs" "length vs = length ns"
    "\<forall>i < length ns. map_of bound (ns ! i) = Some (vs ! i)" by auto
  have "\<forall>i < length (n # ns). map_of bound ((n # ns) ! i) = Some ((v # vs) ! i)"
    using v vs(3) by (auto simp: nth_Cons split: nat.splits)
  with v vs show ?case by simp
qed

section \<open>Calls: lemmas\<close>

text \<open>
  A call whose connection has a supported paramstyle and whose arguments bind reaches
  \<^verbatim>\<open>cur.execute\<close> with the rendering of that style and hands the cursor to the loader.
\<close>

lemma body_executes:
  assumes "map_of (pm_precomputedSQL pm) (paramstyle (query_connection proxySelf)) =
             Some (styledSQL, styledMap)"
    and "bind (pm_sig pm) (PyNone # args) kw = Inr bound"
    and "queryArguments styledMap (apply_defaults (pm_sig pm) bound) = Inr params"
  shows "body (pm\<lparr>pm_load := l\<rparr>) proxySelf args kw =
           hand_off (pm\<lparr>pm_load := l\<rparr>) proxySelf
             (execute (cursor (query_connection proxySelf)) styledSQL params)"
  using assms by (simp add: body_def Let_def)

lemma executed_pending:
  "pending (execute (cursor conn) q params) = answers conn q params"
  by (simp add: execute_def cursor_def)

lemma executed_counts:
  "fetchall_calls (execute (cursor conn) q params) = 0"
  "fetchone_calls (execute (cursor conn) q params) = 0"
  "close_calls (execute (cursor conn) q params) = 0"
  by (simp_all add: execute_def cursor_def)

lemma hand_off_translator:
  "hand_off (pm\<lparr>pm_load := (\<lambda>db. Coroutine (translator fixer f noResults db))\<rparr>) proxySelf cur =
     (let cur' = cur\<lparr>pending := [], fetchall_calls := Suc (fetchall_calls cur)\<rparr> in
      case pending cur of
        [] \<Rightarrow> (case noResults of Inl e \<Rightarrow> Failed e cur' | Inr v \<Rightarrow> Returned v (close cur'))
      | [r] \<Rightarrow> (case load_row fixer f proxySelf r of
                  Inl e \<Rightarrow> Failed e cur'
                | Inr v \<Rightarrow> Returned v (close cur'))
      | _ \<Rightarrow> Failed (TooManyResults []) cur')"
  by (simp add: hand_off_def translator_def fetchall_def Let_def split: list.splits sum.splits)

lemma hand_off_zero:
  "hand_off (pm\<lparr>pm_load := zero\<rparr>) proxySelf cur =
     (let cur' = cur\<lparr>pending := drop 1 (pending cur), fetchone_calls := Suc (fetchone_calls cur)\<rparr> in
      if pending cur = [] then Returned PyNone (close cur')
      else Failed (TooManyResults ''statemnts should not return values'') cur')"
  by (cases cur)
    (simp add: hand_off_def zero_def zero_run_def fetchone_def close_def Let_def
       split: list.splits)

lemma hand_off_translateMany:
  "hand_off (pm\<lparr>pm_load := (\<lambda>db. AsyncGen (translateMany fixer f db))\<rparr>) proxySelf cur =
     Iterating (translateMany fixer f proxySelf) cur"
  by (simp add: hand_off_def)

lemma create_fixer:
  assumes "l_sourcelines ld = Inr line"
  shows "create caller ld =
     Inr \<lparr>loader = ld, definitionLine = line, decorationLine = f_lineno caller,
          decorationFrame =
            \<lparr>co_name = ''<<decorated here>>'', co_filename = f_filename caller,
             co_firstlineno = f_lineno caller\<rparr>,
          definitionFrame =
            \<lparr>co_name = ''<<defined here>>'',
             co_filename =
               (case l_sourcefile ld of
                  None \<Rightarrow> ''unknown definition''
                | Some file \<Rightarrow> (if file = [] then ''unknown definition'' else file)),
             co_firstlineno = line\<rparr>\<rparr>"
  using assms by (simp add: create_def)

text \<open>The example declaration, processed by \<^verbatim>\<open>query\<close>, and its calls with \<^verbatim>\<open>userId=7\<close>.\<close>

lemma format_getNameSQL:
  "format_map getNameSQL \<lparr>placeholder = token, names = []\<rparr> =
     Inr (''SELECT name FROM users WHERE id = '' @ token,
          \<lparr>placeholder = token, names = [''userId'']\<rparr>)"
proof -
  have "getNameSQL = template_of [Lit ''SELECT name FROM users WHERE id = '', Field ''userId'']"
    by (simp add: getNameSQL_def)
  moreover have "valid_pieces [Lit ''SELECT name FROM users WHERE id = '', Field ''userId'']"
    by (simp add: valid_name_def positional_def isDigit_def plain_char_def fieldSpecial_def)
  ultimately show ?thesis
    using format_map_pieces
      [of "[Lit ''SELECT name FROM users WHERE id = '', Field ''userId'']" token]
    by simp
qed

lemma query_getName: "query getNameSQL l getName = Inr (getNameProxy l)"
  by (simp add: query_def setOn_def styles_def format_getNameSQL getName_def getNameProxy_def
      Let_def)

lemma getName_call:
  "map_of (pm_precomputedSQL (getNameProxy l)) ''qmark'' =
     Some (''SELECT name FROM users WHERE id = ?'', \<lparr>placeholder = ''?'', names = [''userId'']\<rparr>)"
  "bind (pm_sig (getNameProxy l)) [PyNone] [(''userId'', PyInt 7)] =
     Inr [(''self'', PyNone), (''userId'', PyInt 7)]"
  "queryArguments \<lparr>placeholder = ''?'', names = [''userId'']\<rparr>
     (apply_defaults (pm_sig (getNameProxy l)) [(''self'', PyNone), (''userId'', PyInt 7)]) =
     Inr [PyInt 7]"
  by (simp_all add: getNameProxy_def getName_def bind_def queryArguments_def)

section \<open>Cardinality loaders: results of a call\<close>

text \<open>
  Claim C2. Let a call reach \<^verbatim>\<open>cur.execute\<close> (the paramstyle is supported and the arguments
  bind), and let \<^verbatim>\<open>rows\<close> be the result set of the statement. For a query declared with
  \<^verbatim>\<open>one(loader)\<close>, the awaited call fails with \<^verbatim>\<open>NotEnoughResults\<close> when there is no row,
  fails with \<^verbatim>\<open>TooManyResults\<close> when there are two or more, and returns the loader's value for
  the columns of the row when there is exactly one row that the loader accepts. A query
  declared with \<^verbatim>\<open>maybe(loader)\<close> returns \<^verbatim>\<open>None\<close> when there is no row and does as \<^verbatim>\<open>one\<close> does
  otherwise. \<^verbatim>\<open>one\<close> and \<^verbatim>\<open>maybe\<close> themselves succeed whenever the loader's source is found.
  The outcome also shows the state in which the call leaves its cursor: the statement
  executed once, all rows fetched by one \<^verbatim>\<open>fetchall\<close>, and the cursor closed where a value is
  returned.
\<close>

theorem one_maybe_result_count:
  assumes src: "l_sourcelines ld = Inr line"
    and style: "map_of (pm_precomputedSQL pm) (paramstyle (query_connection proxySelf)) =
                  Some (styledSQL, styledMap)"
    and bound: "bind (pm_sig pm) (PyNone # args) kw = Inr bound"
    and params: "queryArguments styledMap (apply_defaults (pm_sig pm) bound) = Inr params"
  shows "\<exists>loadOne loadMaybe.
      one caller ld = Inr loadOne \<and> maybe caller ld = Inr loadMaybe \<and>
      (let conn = query_connection proxySelf;
           rows = answers conn styledSQL params;
           fetched = \<lparr>driver = answers conn, executed = [(styledSQL, params)], pending = [],
                      fetchone_calls = 0, fetchall_calls = 1, close_calls = 0\<rparr>;
           closed = fetched\<lparr>close_calls := 1\<rparr>;
           callOne = body (pm\<lparr>pm_load := loadOne\<rparr>) proxySelf args kw;
           callMaybe = body (pm\<lparr>pm_load := loadMaybe\<rparr>) proxySelf args kw
       in (rows = [] \<longrightarrow>
             callOne = Failed NotEnoughResults fetched \<and>
             callMaybe = Returned PyNone closed) \<and>
          (2 \<le> length rows \<longrightarrow>
             callOne = Failed (TooManyResults []) fetched \<and>
             callMaybe = Failed (TooManyResults []) fetched) \<and>
          (\<forall>r v. rows = [r] \<and> l_call ld proxySelf r = Inr v \<longrightarrow>
             callOne = Returned v closed \<and>
             callMaybe = Returned v closed))"
proof -
  obtain fixer where fixer: "create caller ld = Inr fixer"
    using create_fixer [OF src] by blast
  let ?one = "\<lambda>db. Coroutine (translator fixer (l_call ld) (Inl NotEnoughResults) db)"
  let ?maybe = "\<lambda>db. Coroutine (translator fixer (l_call ld) (Inr PyNone) db)"
  let ?cur = "execute (cursor (query_connection proxySelf)) styledSQL params"
  have one: "one caller ld = Inr ?one" and maybe: "maybe caller ld = Inr ?maybe"
    by (simp_all add: one_def maybe_def fixer)
  have callOne: "body (pm\<lparr>pm_load := ?one\<rparr>) proxySelf args kw =
      hand_off (pm\<lparr>pm_load := ?one\<rparr>) proxySelf ?cur"
    by (rule body_executes [OF style bound params])
  have callMaybe: "body (pm\<lparr>pm_load := ?maybe\<rparr>) proxySelf args kw =
      hand_off (pm\<lparr>pm_load := ?maybe\<rparr>) proxySelf ?cur"
    by (rule body_executes [OF style bound params])
  have many_rows: "2 \<le> length rows \<Longrightarrow>
      (case rows of [] \<Rightarrow> a | [r] \<Rightarrow> g r | _ \<Rightarrow> c) = c"
    for rows :: "row list" and a c :: body_outcome and g
    by (cases rows; auto split: list.splits)
  show ?thesis
    apply (rule exI [of _ ?one])
    apply (rule exI [of _ ?maybe])
    apply (intro conjI one maybe)
    apply (simp only: Let_def callOne callMaybe hand_off_translator executed_pending
        executed_counts)
    apply (auto simp: many_rows load_row_def execute_def cursor_def close_def)
    done
qed

theorem one_maybe_result_count_witness:
  "\<exists>loadOne loadMaybe.
     one annotationSite loadName = Inr loadOne \<and>
     maybe annotationSite loadName = Inr loadMaybe \<and>
     query getNameSQL loadOne getName = Inr (getNameProxy loadOne) \<and>
     query getNameSQL loadMaybe getName = Inr (getNameProxy loadMaybe) \<and>
     body (getNameProxy loadOne) (usersProxy ''qmark'' []) [] [(''userId'', PyInt 7)] =
       Failed NotEnoughResults (fetchedAll []) \<and>
     body (getNameProxy loadMaybe) (usersProxy ''qmark'' []) [] [(''userId'', PyInt 7)] =
       Returned PyNone (close (fetchedAll [])) \<and>
     body (getNameProxy loadOne) (usersProxy ''qmark'' [[PyStr ''ann'']]) []
         [(''userId'', PyInt 7)] =
       Returned (PyStr ''ann'') (close (fetchedAll [[PyStr ''ann'']])) \<and>
     body (getNameProxy loadMaybe) (usersProxy ''qmark'' [[PyStr ''ann'']]) []
         [(''userId'', PyInt 7)] =
       Returned (PyStr ''ann'') (close (fetchedAll [[PyStr ''ann'']])) \<and>
     body (getNameProxy loadOne) (usersProxy ''qmark'' [[PyStr ''ann''], [PyStr ''bob'']]) []
         [(''userId'', PyInt 7)] =
       Failed (TooManyResults []) (fetchedAll [[PyStr ''ann''], [PyStr ''bob'']]) \<and>
     body (getNameProxy loadMaybe) (usersProxy ''qmark'' [[PyStr ''ann''], [PyStr ''bob'']]) []
         [(''userId'', PyInt 7)] =
       Failed (TooManyResults []) (fetchedAll [[PyStr ''ann''], [PyStr ''bob'']])"
proof -
  have src: "l_sourcelines loadName = Inr 10" by (simp add: loadName_def)
  have style: "map_of (pm_precomputedSQL (getNameProxy zero))
        (paramstyle (query_connection (usersProxy ''qmark'' rows))) =
      Some (''SELECT name FROM users WHERE id = ?'',
            \<lparr>placeholder = ''?'', names = [''userId'']\<rparr>)" for rows
    by (simp add: getName_call usersProxy_def usersConnection_def)
  note inst = one_maybe_result_count [OF src style getName_call(2) getName_call(3),
      where caller = annotationSite]
  have upd: "(getNameProxy zero)\<lparr>pm_load := l\<rparr> = getNameProxy l" for l
    by (simp add: getNameProxy_def)
  from inst [of "[]"] inst [of "[[PyStr ''ann'']]"] inst [of "[[PyStr ''ann''], [PyStr ''bob'']]"]
  show ?thesis
    by (auto simp: Let_def upd query_getName usersProxy_def usersConnection_def fetchedAll_def
        executedCursor_def execute_def cursor_def close_def loadName_def)
qed

text \<open>
  Claim C9. A statement is declared with the loader \<^verbatim>\<open>zero\<close>. Let a call of it reach
  \<^verbatim>\<open>cur.execute\<close> and let \<^verbatim>\<open>rows\<close> be what the statement produced. The call makes one
  \<^verbatim>\<open>fetchone\<close> and no \<^verbatim>\<open>fetchall\<close>, so it takes at most one row off the cursor; when there is
  no row it returns \<^verbatim>\<open>None\<close>, and when there is any row it fails with \<^verbatim>\<open>TooManyResults\<close>.
\<close>

theorem zero_statement:
  assumes style: "map_of (pm_precomputedSQL pm) (paramstyle (query_connection proxySelf)) =
                    Some (styledSQL, styledMap)"
    and bound: "bind (pm_sig pm) (PyNone # args) kw = Inr bound"
    and params: "queryArguments styledMap (apply_defaults (pm_sig pm) bound) = Inr params"
  shows "(\<forall>q f declared. statement q f = Inr declared \<longrightarrow> pm_load declared = zero) \<and>
     (let conn = query_connection proxySelf;
          rows = answers conn styledSQL params;
          fetched = \<lparr>driver = answers conn, executed = [(styledSQL, params)],
                     pending = drop 1 rows, fetchone_calls = 1, fetchall_calls = 0,
                     close_calls = 0\<rparr>
      in body (pm\<lparr>pm_load := zero\<rparr>) proxySelf args kw =
           (if rows = [] then Returned PyNone (fetched\<lparr>close_calls := 1\<rparr>)
            else Failed (TooManyResults ''statemnts should not return values'') fetched))"
proof -
  have declared: "pm_load declared = zero" if "statement q f = Inr declared" for q f declared
    using that
    by (auto simp: statement_def query_def setOn_def Let_def
        split: sum.splits option.splits prod.splits if_splits)
  have call: "body (pm\<lparr>pm_load := zero\<rparr>) proxySelf args kw =
      hand_off (pm\<lparr>pm_load := zero\<rparr>) proxySelf
        (execute (cursor (query_connection proxySelf)) styledSQL params)"
    by (rule body_executes [OF style bound params])
  show ?thesis
    using declared
    by (simp add: Let_def call hand_off_zero executed_pending executed_counts)
      (simp add: execute_def cursor_def close_def)
qed

theorem zero_statement_witness:
  "statement getNameSQL getName = Inr (getNameProxy zero) \<and>
   body (getNameProxy zero) (usersProxy ''qmark'' []) [] [(''userId'', PyInt 7)] =
     Returned PyNone (close (fetchedOne [] 1)) \<and>
   body (getNameProxy zero) (usersProxy ''qmark'' [[PyStr ''ann''], [PyStr ''bob'']]) []
       [(''userId'', PyInt 7)] =
     Failed (TooManyResults ''statemnts should not return values'')
       (fetchedOne [[PyStr ''ann''], [PyStr ''bob'']] 1) \<and>
   pending (fetchedOne [[PyStr ''ann''], [PyStr ''bob'']] 1) = [[PyStr ''bob'']]"
proof -
  have style: "map_of (pm_precomputedSQL (getNameProxy zero))
        (paramstyle (query_connection (usersProxy ''qmark'' rows))) =
      Some (''SELECT name FROM users WHERE id = ?'',
            \<lparr>placeholder = ''?'', names = [''userId'']\<rparr>)" for rows
    by (simp add: getName_call usersProxy_def usersConnection_def)
  note inst = zero_statement [OF style getName_call(2) getName_call(3)]
  have upd: "(getNameProxy zero)\<lparr>pm_load := zero\<rparr> = getNameProxy zero"
    by (simp add: getNameProxy_def)
  have decl: "statement getNameSQL getName = Inr (getNameProxy zero)"
    by (simp add: statement_def query_getName)
  from inst [of "[]"] inst [of "[[PyStr ''ann''], [PyStr ''bob'']]"] decl
  show ?thesis
    by (simp add: Let_def upd usersProxy_def usersConnection_def fetchedOne_def
        executedCursor_def execute_def cursor_def close_def)
qed

section \<open>Iterating a many query\<close>

lemma aiter_call_iterating:
  assumes "body pm proxySelf args kw = Iterating g cur" and "0 < requests"
  shows "aiter_call pm proxySelf args kw requests =
     (case consume g requests cur of
        ((vs, fin), cur') \<Rightarrow> \<lparr>delivered = vs, ended = fin, call_cursor = Some (close cur')\<rparr>)"
  using assms by (simp add: aiter_call_def)

lemma consume_many:
  assumes "map (f db) (pending cur) = map Inr vs"
  shows "consume (translateMany fixer f db) k cur =
     (if k \<le> length vs
      then ((take k vs, Abandoned),
            cur\<lparr>pending := drop k (pending cur), fetchone_calls := fetchone_calls cur + k\<rparr>)
      else ((vs, Exhausted),
            cur\<lparr>pending := [], fetchone_calls := fetchone_calls cur + length vs + 1\<rparr>))"
  using assms
proof (induction k arbitrary: cur vs)
  case 0
  then show ?case by simp
next
  case (Suc k)
  show ?case
  proof (cases "pending cur")
    case Nil
    with Suc.prems have "vs = []" by simp
    with Nil show ?thesis by (simp add: translateMany_def fetchone_def)
  next
    case (Cons r rs)
    with Suc.prems obtain v vs' where vs: "vs = v # vs'" and v: "f db r = Inr v"
      and rest: "map (f db) rs = map Inr vs'"
      by (cases vs) auto
    let ?cur' = "cur\<lparr>pending := rs, fetchone_calls := Suc (fetchone_calls cur)\<rparr>"
    have step: "translateMany fixer f db cur = (Yield v, ?cur')"
      using Cons v by (simp add: translateMany_def fetchone_def load_row_def)
    have "map (f db) (pending ?cur') = map Inr vs'" using rest by simp
    note IH = Suc.IH [OF this]
    show ?thesis
      using Cons vs by (simp add: step IH)
  qed
qed

lemma consume_rejected:
  assumes "pending cur = pre @ r # rest" and "map (f db) pre = map Inr vs"
    and "load_row fixer f db r = Inl e" and "length pre < k"
  shows "consume (translateMany fixer f db) k cur =
     ((vs, Raised e),
      cur\<lparr>pending := rest, fetchone_calls := fetchone_calls cur + length pre + 1\<rparr>)"
  using assms
proof (induction pre arbitrary: cur vs k)
  case Nil
  then obtain k' where k: "k = Suc k'" by (cases k) auto
  from Nil have "vs = []" by simp
  with Nil k show ?case by (simp add: translateMany_def fetchone_def)
next
  case (Cons p pre)
  then obtain k' where k: "k = Suc k'" and k': "length pre < k'" by (cases k) auto
  from Cons.prems obtain v vs' where vs: "vs = v # vs'" and v: "f db p = Inr v"
    and rest: "map (f db) pre = map Inr vs'"
    by (cases vs) auto
  let ?cur' = "cur\<lparr>pending := pre @ r # rest, fetchone_calls := Suc (fetchone_calls cur)\<rparr>"
  have step: "translateMany fixer f db cur = (Yield v, ?cur')"
    using Cons.prems(1) v by (simp add: translateMany_def fetchone_def load_row_def)
  have "pending ?cur' = pre @ r # rest" by simp
  note IH = Cons.IH [OF this rest Cons.prems(3) k']
  show ?case
    using vs k by (simp add: step IH)
qed

text \<open>
  Claim C4. Let a call of a query declared with \<^verbatim>\<open>many(loader)\<close> reach \<^verbatim>\<open>cur.execute\<close>, let
  the loader accept every row of the finite result set, \<^verbatim>\<open>vs\<close> being its values for the rows
  in the driver's order, and let the consumer ask for \<^verbatim>\<open>requests\<close> elements before it
  abandons the iteration. Then the elements delivered are the first \<^verbatim>\<open>requests\<close> elements of
  \<^verbatim>\<open>vs\<close>. A consumer that stops within the result set has caused one \<^verbatim>\<open>fetchone\<close> for each
  element it received and the rows behind them are still on the cursor; a consumer that asks
  for more receives all of \<^verbatim>\<open>vs\<close>, one element for each row, and the sequence ends at the
  \<^verbatim>\<open>fetchone\<close> after the last row, the one that reports that there are no more rows. Rows are
  never fetched with \<^verbatim>\<open>fetchall\<close>. A consumer that asks for nothing does not start the call.
  \<^verbatim>\<open>many\<close> itself succeeds whenever the loader's source is found.
\<close>

theorem many_sequence:
  assumes src: "l_sourcelines ld = Inr line"
    and style: "map_of (pm_precomputedSQL pm) (paramstyle (query_connection proxySelf)) =
                  Some (styledSQL, styledMap)"
    and bound: "bind (pm_sig pm) (PyNone # args) kw = Inr bound"
    and params: "queryArguments styledMap (apply_defaults (pm_sig pm) bound) = Inr params"
    and loaded: "map (l_call ld proxySelf) (answers (query_connection proxySelf) styledSQL params) =
                   map Inr vs"
  shows "\<exists>loadMany.
      many caller ld = Inr loadMany \<and>
      (let conn = query_connection proxySelf;
           rows = answers conn styledSQL params
       in aiter_call (pm\<lparr>pm_load := loadMany\<rparr>) proxySelf args kw requests =
            (if requests = 0
             then \<lparr>delivered = [], ended = Abandoned, call_cursor = None\<rparr>
             else if requests \<le> length rows
             then \<lparr>delivered = take requests vs, ended = Abandoned,
                   call_cursor =
                     Some \<lparr>driver = answers conn, executed = [(styledSQL, params)],
                           pending = drop requests rows, fetchone_calls = requests,
                           fetchall_calls = 0, close_calls = 1\<rparr>\<rparr>
             else \<lparr>delivered = vs, ended = Exhausted,
                   call_cursor =
                     Some \<lparr>driver = answers conn, executed = [(styledSQL, params)],
                           pending = [], fetchone_calls = Suc (length rows),
                           fetchall_calls = 0, close_calls = 1\<rparr>\<rparr>))"
proof -
  obtain fixer where fixer: "create caller ld = Inr fixer"
    using create_fixer [OF src] by blast
  let ?many = "\<lambda>db. AsyncGen (translateMany fixer (l_call ld) db)"
  let ?cur = "execute (cursor (query_connection proxySelf)) styledSQL params"
  have many: "many caller ld = Inr ?many"
    by (simp add: many_def fixer)
  have call: "body (pm\<lparr>pm_load := ?many\<rparr>) proxySelf args kw =
      Iterating (translateMany fixer (l_call ld) proxySelf) ?cur"
    by (simp only: body_executes [OF style bound params] hand_off_translateMany)
  have len: "length vs = length (answers (query_connection proxySelf) styledSQL params)"
    using loaded by (metis length_map)
  have pend: "map (l_call ld proxySelf) (pending ?cur) = map Inr vs"
    using loaded by (simp add: executed_pending)
  have run: "consume (translateMany fixer (l_call ld) proxySelf) requests ?cur =
     (if requests \<le> length vs
      then ((take requests vs, Abandoned),
            ?cur\<lparr>pending := drop requests (pending ?cur),
                  fetchone_calls := fetchone_calls ?cur + requests\<rparr>)
      else ((vs, Exhausted),
            ?cur\<lparr>pending := [], fetchone_calls := fetchone_calls ?cur + length vs + 1\<rparr>))"
    using pend
    by (rule consume_many [where f = "l_call ld" and db = proxySelf and cur = ?cur and vs = vs])
  have none: "aiter_call (pm\<lparr>pm_load := ?many\<rparr>) proxySelf args kw 0 =
      \<lparr>delivered = [], ended = Abandoned, call_cursor = None\<rparr>"
    by (simp add: aiter_call_def)
  have some: "aiter_call (pm\<lparr>pm_load := ?many\<rparr>) proxySelf args kw requests =
      (case consume (translateMany fixer (l_call ld) proxySelf) requests ?cur of
         ((vs, fin), cur') \<Rightarrow>
           \<lparr>delivered = vs, ended = fin, call_cursor = Some (close cur')\<rparr>)"
    if "0 < requests"
    by (rule aiter_call_iterating [OF call that])
  show ?thesis
    apply (rule exI [of _ ?many])
    apply (intro conjI many)
    apply (cases "requests = 0")
     apply (simp add: Let_def none)
    apply (simp add: Let_def some run len executed_pending executed_counts)
    apply (simp add: execute_def cursor_def close_def)
    done
qed

theorem many_sequence_witness:
  "\<exists>loadMany.
     many annotationSite loadName = Inr loadMany \<and>
     query getNameSQL loadMany getName = Inr (getNameProxy loadMany) \<and>
     aiter_call (getNameProxy loadMany)
         (usersProxy ''qmark'' [[PyStr ''ann''], [PyStr ''bob'']]) [] [(''userId'', PyInt 7)] 1 =
       \<lparr>delivered = [PyStr ''ann''], ended = Abandoned,
        call_cursor = Some (close (fetchedOne [[PyStr ''ann''], [PyStr ''bob'']] 1))\<rparr> \<and>
     aiter_call (getNameProxy loadMany)
         (usersProxy ''qmark'' [[PyStr ''ann''], [PyStr ''bob'']]) [] [(''userId'', PyInt 7)] 3 =
       \<lparr>delivered = [PyStr ''ann'', PyStr ''bob''], ended = Exhausted,
        call_cursor = Some (close (fetchedOne [[PyStr ''ann''], [PyStr ''bob'']] 3))\<rparr>"
proof -
  let ?rows = "[[PyStr ''ann''], [PyStr ''bob'']]"
  have src: "l_sourcelines loadName = Inr 10" by (simp add: loadName_def)
  have style: "map_of (pm_precomputedSQL (getNameProxy zero))
        (paramstyle (query_connection (usersProxy ''qmark'' ?rows))) =
      Some (''SELECT name FROM users WHERE id = ?'',
            \<lparr>placeholder = ''?'', names = [''userId'']\<rparr>)"
    by (simp add: getName_call usersProxy_def usersConnection_def)
  have loaded: "map (l_call loadName (usersProxy ''qmark'' ?rows))
        (answers (query_connection (usersProxy ''qmark'' ?rows))
           ''SELECT name FROM users WHERE id = ?'' [PyInt 7]) =
      map Inr [PyStr ''ann'', PyStr ''bob'']"
    by (simp add: usersProxy_def usersConnection_def loadName_def)
  note inst = many_sequence [OF src style getName_call(2) getName_call(3) loaded,
      where caller = annotationSite]
  have upd: "(getNameProxy zero)\<lparr>pm_load := l\<rparr> = getNameProxy l" for l
    by (simp add: getNameProxy_def)
  from inst [of 1] inst [of 3]
  show ?thesis
    by (auto simp: Let_def upd query_getName usersProxy_def usersConnection_def fetchedOne_def
        executedCursor_def execute_def cursor_def close_def numeral_3_eq_3)
qed

section \<open>Rows that the loader rejects\<close>

lemma load_row_rejected:
  assumes "f db r = Inl e" and "isTypeError e"
  shows "load_row fixer f db r = Inl (reraise fixer r e)"
  using assms by (simp add: load_row_def)

text \<open>
  Claim C5, as the program has it. Let a call reach \<^verbatim>\<open>cur.execute\<close>, and let the loader reject
  the row \<^verbatim>\<open>r\<close> of the result set by raising a \<^verbatim>\<open>TypeError\<close> \<^verbatim>\<open>e\<close> (or an instance of a subclass),
  having accepted the rows \<^verbatim>\<open>pre\<close> before it. For a query declared with \<^verbatim>\<open>one\<close> or \<^verbatim>\<open>maybe\<close>
  whose result set is that row alone, the awaited call fails with \<^verbatim>\<open>WrongRowShape\<close>; for a query
  declared with \<^verbatim>\<open>many\<close>, a consumer that asks for more elements than there are rows in
  \<^verbatim>\<open>pre\<close> receives the values of those rows and then \<^verbatim>\<open>WrongRowShape\<close>. The error names the
  loader and the row, has \<^verbatim>\<open>e\<close> as its cause, and its traceback has two entries: the file and
  line where the loader is defined, and the file and line of \<^verbatim>\<open>caller\<close>, the code that applied
  \<^verbatim>\<open>one\<close>, \<^verbatim>\<open>maybe\<close> or \<^verbatim>\<open>many\<close> to the loader. That is the annotation's own place when the
  loader is wrapped inside the annotation, as in \<^verbatim>\<open>@query(sql=..., load=one(loader))\<close>. What
  reaches the caller is this error and not \<^verbatim>\<open>e\<close>.
\<close>

theorem row_shape_error:
  assumes src: "l_sourcelines ld = Inr line"
    and style: "map_of (pm_precomputedSQL pm) (paramstyle (query_connection proxySelf)) =
                  Some (styledSQL, styledMap)"
    and bound: "bind (pm_sig pm) (PyNone # args) kw = Inr bound"
    and params: "queryArguments styledMap (apply_defaults (pm_sig pm) bound) = Inr params"
    and rows: "answers (query_connection proxySelf) styledSQL params = pre @ r # rest"
    and accepted: "map (l_call ld proxySelf) pre = map Inr vs"
    and rejected: "l_call ld proxySelf r = Inl e"
    and typeError: "isTypeError e"
  shows "\<exists>loadOne loadMaybe loadMany.
      one caller ld = Inr loadOne \<and> maybe caller ld = Inr loadMaybe \<and>
      many caller ld = Inr loadMany \<and>
      (let conn = query_connection proxySelf;
           shape =
             WrongRowShape (l_module ld) (l_name ld) r
               (TracebackType
                  (TracebackType NoTraceback
                     \<lparr>co_name = ''<<decorated here>>'', co_filename = f_filename caller,
                      co_firstlineno = f_lineno caller\<rparr> 0 (f_lineno caller))
                  \<lparr>co_name = ''<<defined here>>'',
                   co_filename =
                     (case l_sourcefile ld of
                        None \<Rightarrow> ''unknown definition''
                      | Some file \<Rightarrow> (if file = [] then ''unknown definition'' else file)),
                   co_firstlineno = line\<rparr> 0 line)
               e
       in (pre = [] \<and> rest = [] \<longrightarrow>
             body (pm\<lparr>pm_load := loadOne\<rparr>) proxySelf args kw =
               Failed shape
                 \<lparr>driver = answers conn, executed = [(styledSQL, params)], pending = [],
                  fetchone_calls = 0, fetchall_calls = 1, close_calls = 0\<rparr> \<and>
             body (pm\<lparr>pm_load := loadMaybe\<rparr>) proxySelf args kw =
               Failed shape
                 \<lparr>driver = answers conn, executed = [(styledSQL, params)], pending = [],
                  fetchone_calls = 0, fetchall_calls = 1, close_calls = 0\<rparr>) \<and>
          (length pre < requests \<longrightarrow>
             aiter_call (pm\<lparr>pm_load := loadMany\<rparr>) proxySelf args kw requests =
               \<lparr>delivered = vs, ended = Raised shape,
                call_cursor =
                  Some \<lparr>driver = answers conn, executed = [(styledSQL, params)],
                        pending = rest, fetchone_calls = Suc (length pre),
                        fetchall_calls = 0, close_calls = 1\<rparr>\<rparr>))"
proof -
  let ?fixer = "\<lparr>loader = ld, definitionLine = line, decorationLine = f_lineno caller,
      decorationFrame =
        \<lparr>co_name = ''<<decorated here>>'', co_filename = f_filename caller,
         co_firstlineno = f_lineno caller\<rparr>,
      definitionFrame =
        \<lparr>co_name = ''<<defined here>>'',
         co_filename =
           (case l_sourcefile ld of
              None \<Rightarrow> ''unknown definition''
            | Some file \<Rightarrow> (if file = [] then ''unknown definition'' else file)),
         co_firstlineno = line\<rparr>\<rparr>"
  let ?shape = "reraise ?fixer r e"
  let ?one = "\<lambda>db. Coroutine (translator ?fixer (l_call ld) (Inl NotEnoughResults) db)"
  let ?maybe = "\<lambda>db. Coroutine (translator ?fixer (l_call ld) (Inr PyNone) db)"
  let ?many = "\<lambda>db. AsyncGen (translateMany ?fixer (l_call ld) db)"
  let ?cur = "execute (cursor (query_connection proxySelf)) styledSQL params"
  have fixer: "create caller ld = Inr ?fixer" by (rule create_fixer [OF src])
  have one: "one caller ld = Inr ?one" and maybe: "maybe caller ld = Inr ?maybe"
    and many: "many caller ld = Inr ?many"
    by (simp_all add: one_def maybe_def many_def fixer)
  have shape: "load_row ?fixer (l_call ld) proxySelf r = Inl ?shape"
    using rejected typeError by (rule load_row_rejected)
  have callOne: "body (pm\<lparr>pm_load := ?one\<rparr>) proxySelf args kw =
      Failed ?shape (?cur\<lparr>pending := [], fetchall_calls := 1\<rparr>)"
    if "pre = []" and "rest = []"
    using that rows
    by (simp add: body_executes [OF style bound params] hand_off_translator executed_pending
        executed_counts shape Let_def)
  have callMaybe: "body (pm\<lparr>pm_load := ?maybe\<rparr>) proxySelf args kw =
      Failed ?shape (?cur\<lparr>pending := [], fetchall_calls := 1\<rparr>)"
    if "pre = []" and "rest = []"
    using that rows
    by (simp add: body_executes [OF style bound params] hand_off_translator executed_pending
        executed_counts shape Let_def)
  have call: "body (pm\<lparr>pm_load := ?many\<rparr>) proxySelf args kw =
      Iterating (translateMany ?fixer (l_call ld) proxySelf) ?cur"
    by (simp only: body_executes [OF style bound params] hand_off_translateMany)
  have pend: "pending ?cur = pre @ r # rest"
    using rows by (simp add: executed_pending)
  have run: "consume (translateMany ?fixer (l_call ld) proxySelf) requests ?cur =
      ((vs, Raised ?shape),
       ?cur\<lparr>pending := rest, fetchone_calls := fetchone_calls ?cur + length pre + 1\<rparr>)"
    if "length pre < requests"
    using pend accepted shape that
    by (rule consume_rejected
        [where f = "l_call ld" and db = proxySelf and cur = ?cur and vs = vs and pre = pre])
  have iter: "aiter_call (pm\<lparr>pm_load := ?many\<rparr>) proxySelf args kw requests =
      \<lparr>delivered = vs, ended = Raised ?shape,
       call_cursor = Some (close (?cur\<lparr>pending := rest, fetchone_calls := Suc (length pre)\<rparr>))\<rparr>"
    if "length pre < requests"
  proof -
    from that have "0 < requests" by simp
    from aiter_call_iterating [OF call this] run [OF that] show ?thesis
      by (simp add: executed_counts)
  qed
  have unfold: "?shape =
      WrongRowShape (l_module ld) (l_name ld) r
        (TracebackType
           (TracebackType NoTraceback
              \<lparr>co_name = ''<<decorated here>>'', co_filename = f_filename caller,
               co_firstlineno = f_lineno caller\<rparr> 0 (f_lineno caller))
           \<lparr>co_name = ''<<defined here>>'',
            co_filename =
              (case l_sourcefile ld of
                 None \<Rightarrow> ''unknown definition''
               | Some file \<Rightarrow> (if file = [] then ''unknown definition'' else file)),
            co_firstlineno = line\<rparr> 0 line)
        e"
    by (simp add: reraise_def Let_def)
  show ?thesis
    apply (rule exI [of _ ?one])
    apply (rule exI [of _ ?maybe])
    apply (rule exI [of _ ?many])
    apply (intro conjI one maybe many)
    apply (simp only: Let_def unfold [symmetric])
    apply (intro conjI impI)
    apply (simp add: callOne execute_def cursor_def)
    apply (simp add: callMaybe execute_def cursor_def)
    apply (simp add: iter execute_def cursor_def close_def)
    done
qed

theorem row_shape_error_witness:
  "\<exists>loadOne loadMaybe loadMany.
     one annotationSite loadName = Inr loadOne \<and>
     maybe annotationSite loadName = Inr loadMaybe \<and>
     many annotationSite loadName = Inr loadMany \<and>
     body (getNameProxy loadOne) (usersProxy ''qmark'' [[PyStr ''ann'', PyInt 3]]) []
         [(''userId'', PyInt 7)] =
       Failed
         (WrongRowShape ''app.users'' ''loadName'' [PyStr ''ann'', PyInt 3]
            (TracebackType
               (TracebackType NoTraceback
                  \<lparr>co_name = ''<<decorated here>>'', co_filename = ''app/queries.py'',
                   co_firstlineno = 20\<rparr> 0 20)
               \<lparr>co_name = ''<<defined here>>'', co_filename = ''app/users.py'',
                co_firstlineno = 10\<rparr> 0 10)
            (TypeError ''loadName() takes 2 positional arguments''))
         (fetchedAll [[PyStr ''ann'', PyInt 3]]) \<and>
     ended (aiter_call (getNameProxy loadMany) (usersProxy ''qmark'' [[PyStr ''ann'', PyInt 3]]) []
         [(''userId'', PyInt 7)] 1) =
       Raised
         (WrongRowShape ''app.users'' ''loadName'' [PyStr ''ann'', PyInt 3]
            (TracebackType
               (TracebackType NoTraceback
                  \<lparr>co_name = ''<<decorated here>>'', co_filename = ''app/queries.py'',
                   co_firstlineno = 20\<rparr> 0 20)
               \<lparr>co_name = ''<<defined here>>'', co_filename = ''app/users.py'',
                co_firstlineno = 10\<rparr> 0 10)
            (TypeError ''loadName() takes 2 positional arguments''))"
proof -
  let ?rows = "[[PyStr ''ann'', PyInt 3]]"
  have src: "l_sourcelines loadName = Inr 10" by (simp add: loadName_def)
  have style: "map_of (pm_precomputedSQL (getNameProxy zero))
        (paramstyle (query_connection (usersProxy ''qmark'' ?rows))) =
      Some (''SELECT name FROM users WHERE id = ?'',
            \<lparr>placeholder = ''?'', names = [''userId'']\<rparr>)"
    by (simp add: getName_call usersProxy_def usersConnection_def)
  have rows: "answers (query_connection (usersProxy ''qmark'' ?rows))
        ''SELECT name FROM users WHERE id = ?'' [PyInt 7] = [] @ [PyStr ''ann'', PyInt 3] # []"
    by (simp add: usersProxy_def usersConnection_def)
  have accepted: "map (l_call loadName (usersProxy ''qmark'' ?rows)) [] = map Inr []"
    by simp
  have rejected: "l_call loadName (usersProxy ''qmark'' ?rows) [PyStr ''ann'', PyInt 3] =
      Inl (TypeError ''loadName() takes 2 positional arguments'')"
    by (simp add: loadName_def)
  have typeError: "isTypeError (TypeError ''loadName() takes 2 positional arguments'')"
    by simp
  note inst = row_shape_error [OF src style getName_call(2) getName_call(3) rows accepted
      rejected typeError, where caller = annotationSite and requests = 1]
  have upd: "(getNameProxy zero)\<lparr>pm_load := l\<rparr> = getNameProxy l" for l
    by (simp add: getNameProxy_def)
  from inst show ?thesis
    by (auto simp: Let_def upd annotationSite_def loadName_def usersProxy_def
        usersConnection_def fetchedAll_def executedCursor_def execute_def cursor_def)
qed

text \<open>
  Claim C5, as it is written, says that the attribution points at the query's annotation. The
  declaration \<^verbatim>\<open>sharedAnnotation\<close> is written at line 20 of \<^verbatim>\<open>app/queries.py\<close> and uses a loader
  that was wrapped at line 5 of \<^verbatim>\<open>app/loaders.py\<close>. A call of it whose row has two columns fails
  with a \<^verbatim>\<open>WrongRowShape\<close> whose traceback names the loader's definition and
  \<^verbatim>\<open>app/loaders.py\<close>, line 5; the annotation's place is not in it.
\<close>

theorem row_shape_attribution_counterexample:
  "annotate sharedAnnotation getName = Inr (getNameProxy (a_load sharedAnnotation)) \<and>
   body (getNameProxy (a_load sharedAnnotation)) (usersProxy ''qmark'' [[PyStr ''ann'', PyInt 3]])
       [] [(''userId'', PyInt 7)] =
     Failed rejectedShape (fetchedAll [[PyStr ''ann'', PyInt 3]]) \<and>
   attribution rejectedShape = [(''app/users.py'', 10), (''app/loaders.py'', 5)] \<and>
   (f_filename (a_site sharedAnnotation), f_lineno (a_site sharedAnnotation)) =
     (''app/queries.py'', 20) \<and>
   (f_filename (a_site sharedAnnotation), f_lineno (a_site sharedAnnotation))
     \<notin> set (attribution rejectedShape)"
proof -
  have load: "a_load sharedAnnotation =
      (\<lambda>db. Coroutine (translator
         \<lparr>loader = loadName, definitionLine = 10, decorationLine = 5,
          decorationFrame =
            \<lparr>co_name = ''<<decorated here>>'', co_filename = ''app/loaders.py'',
             co_firstlineno = 5\<rparr>,
          definitionFrame =
            \<lparr>co_name = ''<<defined here>>'', co_filename = ''app/users.py'',
             co_firstlineno = 10\<rparr>\<rparr>
         (l_call loadName) (Inl NotEnoughResults) db))"
    by (simp add: sharedAnnotation_def one_def create_def loaderSite_def loadName_def)
  have decl: "annotate sharedAnnotation getName = Inr (getNameProxy (a_load sharedAnnotation))"
    by (simp add: annotate_def sharedAnnotation_def query_getName)
  have upd: "(getNameProxy zero)\<lparr>pm_load := l\<rparr> = getNameProxy l" for l
    by (simp add: getNameProxy_def)
  have style: "map_of (pm_precomputedSQL (getNameProxy zero))
        (paramstyle (query_connection (usersProxy ''qmark'' [[PyStr ''ann'', PyInt 3]]))) =
      Some (''SELECT name FROM users WHERE id = ?'',
            \<lparr>placeholder = ''?'', names = [''userId'']\<rparr>)"
    by (simp add: getName_call usersProxy_def usersConnection_def)
  have call: "body (getNameProxy (a_load sharedAnnotation))
        (usersProxy ''qmark'' [[PyStr ''ann'', PyInt 3]]) [] [(''userId'', PyInt 7)] =
      Failed rejectedShape (fetchedAll [[PyStr ''ann'', PyInt 3]])"
    using body_executes [OF style getName_call(2) getName_call(3),
        of "a_load sharedAnnotation"]
    by (simp add: upd load hand_off_def translator_def fetchall_def getNameProxy_def Let_def
        usersProxy_def usersConnection_def execute_def cursor_def load_row_def reraise_def
        loadName_def rejectedShape_def fetchedAll_def executedCursor_def)
  show ?thesis
    using decl call
    by (simp add: rejectedShape_def sharedAnnotation_def annotationSite_def)
qed

section \<open>Declarations from pieces\<close>

lemma precompute_pieces:
  assumes "valid_pieces ps"
  shows "precompute (template_of ps) styles =
     Inr [(''qmark'', (rendered ''?'' ps, \<lparr>placeholder = ''?'', names = field_names ps\<rparr>)),
          (''pyformat'', (rendered ''%s'' ps, \<lparr>placeholder = ''%s'', names = field_names ps\<rparr>))]"
  by (simp add: styles_def format_map_pieces [OF assms])

lemma query_pieces:
  assumes "valid_pieces ps"
  shows "query (template_of ps) l f =
     (if set (field_names ps) = set (drop 1 (map p_name (m_parameters f)))
      then Inr \<lparr>pm_sig = m_parameters f,
                pm_precomputedSQL =
                  [(''qmark'', (rendered ''?'' ps,
                                \<lparr>placeholder = ''?'', names = field_names ps\<rparr>)),
                   (''pyformat'', (rendered ''%s'' ps,
                                   \<lparr>placeholder = ''%s'', names = field_names ps\<rparr>))],
                pm_load = l\<rparr>
      else Inl (ParamMismatch (m_name f) (field_names ps)
                  (drop 1 (map p_name (m_parameters f)))))"
  by (simp add: query_def setOn_def precompute_pieces [OF assms] Let_def)

lemma call_arguments:
  assumes bound: "bind sig (PyNone # args) kw = Inr bound"
    and names: "set ns \<subseteq> p_name ` set sig"
  shows "\<exists>values.
      queryArguments \<lparr>placeholder = token, names = ns\<rparr> (apply_defaults sig bound) = Inr values \<and>
      length values = length ns \<and>
      (\<forall>i < length ns. map_of (apply_defaults sig bound) (ns ! i) = Some (values ! i))"
proof -
  have "\<forall>n \<in> set ns. map_of (apply_defaults sig bound) n \<noteq> None"
  proof
    fix n assume "n \<in> set ns"
    with names obtain p where p: "p \<in> set sig" and n: "n = p_name p" by auto
    from apply_defaults_total [OF bind_Inr(4) [OF bound] p] n
    show "map_of (apply_defaults sig bound) n \<noteq> None" by simp
  qed
  from lookup_each_Inr [OF this] show ?thesis by (simp add: queryArguments_def)
qed

lemma valid_renamePieces: "valid_pieces renamePieces" "template_of renamePieces = renameSQL"
  by (simp_all add: renamePieces_def renameSQL_def valid_name_def positional_def isDigit_def
      plain_char_def fieldSpecial_def)

section \<open>Rendering\<close>

text \<open>
  Claim C7. A template with \<^verbatim>\<open>{name}\<close> placeholders is literal text and placeholders in some
  order, \<^verbatim>\<open>ps\<close>; the names are valid field names. \<^verbatim>\<open>setOn\<close> renders it once for each style
  of the table \<^verbatim>\<open>styles\<close>: under \<^verbatim>\<open>qmark\<close> every placeholder is replaced by \<^verbatim>\<open>?\<close> and under
  \<^verbatim>\<open>pyformat\<close> by \<^verbatim>\<open>%s\<close>, the literal text is kept, and the names recorded are the names of
  the placeholders in the order of their occurrence, a name that occurs twice being recorded
  twice. In the scenario of the specification, the template
  \<^verbatim>\<open>SELECT name FROM users WHERE id = {userId}\<close> renders under \<^verbatim>\<open>qmark\<close> to
  \<^verbatim>\<open>SELECT name FROM users WHERE id = ?\<close> with the names \<^verbatim>\<open>["userId"]\<close>, and a call with
  \<^verbatim>\<open>userId=7\<close>, by keyword or by position, executes that text with the arguments \<^verbatim>\<open>[7]\<close>.
\<close>

theorem placeholder_rendering:
  assumes "valid_pieces ps"
  shows "precompute (template_of ps) styles =
       Inr [(''qmark'', (rendered ''?'' ps, \<lparr>placeholder = ''?'', names = field_names ps\<rparr>)),
            (''pyformat'', (rendered ''%s'' ps,
                            \<lparr>placeholder = ''%s'', names = field_names ps\<rparr>))] \<and>
     format_map ''SELECT name FROM users WHERE id = {userId}'' \<lparr>placeholder = ''?'', names = []\<rparr> =
       Inr (''SELECT name FROM users WHERE id = ?'',
            \<lparr>placeholder = ''?'', names = [''userId'']\<rparr>) \<and>
     query ''SELECT name FROM users WHERE id = {userId}'' l getName = Inr (getNameProxy l) \<and>
     body (getNameProxy l) (usersProxy ''qmark'' rows) [] [(''userId'', PyInt 7)] =
       hand_off (getNameProxy l) (usersProxy ''qmark'' rows)
         (execute (cursor (usersConnection ''qmark'' rows))
            ''SELECT name FROM users WHERE id = ?'' [PyInt 7]) \<and>
     body (getNameProxy l) (usersProxy ''qmark'' rows) [PyInt 7] [] =
       hand_off (getNameProxy l) (usersProxy ''qmark'' rows)
         (execute (cursor (usersConnection ''qmark'' rows))
            ''SELECT name FROM users WHERE id = ?'' [PyInt 7])"
proof -
  have scenario: "format_map ''SELECT name FROM users WHERE id = {userId}''
      \<lparr>placeholder = ''?'', names = []\<rparr> =
      Inr (''SELECT name FROM users WHERE id = ?'', \<lparr>placeholder = ''?'', names = [''userId'']\<rparr>)"
    using format_getNameSQL [of "''?''"] by (simp add: getNameSQL_def)
  have declared: "query ''SELECT name FROM users WHERE id = {userId}'' l getName =
      Inr (getNameProxy l)"
    using query_getName [of l] by (simp add: getNameSQL_def)
  have keyword: "body (getNameProxy l) (usersProxy ''qmark'' rows) [] [(''userId'', PyInt 7)] =
      hand_off (getNameProxy l) (usersProxy ''qmark'' rows)
        (execute (cursor (usersConnection ''qmark'' rows))
           ''SELECT name FROM users WHERE id = ?'' [PyInt 7])"
    by (simp add: body_def Let_def getNameProxy_def getName_def usersProxy_def
        usersConnection_def bind_def queryArguments_def)
  have position: "body (getNameProxy l) (usersProxy ''qmark'' rows) [PyInt 7] [] =
      hand_off (getNameProxy l) (usersProxy ''qmark'' rows)
        (execute (cursor (usersConnection ''qmark'' rows))
           ''SELECT name FROM users WHERE id = ?'' [PyInt 7])"
    by (simp add: body_def Let_def getNameProxy_def getName_def usersProxy_def
        usersConnection_def bind_def queryArguments_def)
  from precompute_pieces [OF assms] scenario declared keyword position
  show ?thesis by (intro conjI)
qed

theorem placeholder_rendering_witness:
  "valid_pieces renamePieces \<and>
   template_of renamePieces =
     ''UPDATE users SET first = {name}, nick = {name} WHERE id = {userId}'' \<and>
   precompute ''UPDATE users SET first = {name}, nick = {name} WHERE id = {userId}'' styles =
     Inr [(''qmark'', (''UPDATE users SET first = ?, nick = ? WHERE id = ?'',
                       \<lparr>placeholder = ''?'', names = [''name'', ''name'', ''userId'']\<rparr>)),
          (''pyformat'', (''UPDATE users SET first = %s, nick = %s WHERE id = %s'',
                          \<lparr>placeholder = ''%s'', names = [''name'', ''name'', ''userId'']\<rparr>))]"
proof -
  have t: "template_of renamePieces =
      ''UPDATE users SET first = {name}, nick = {name} WHERE id = {userId}''"
    using valid_renamePieces(2) by (simp add: renameSQL_def)
  from placeholder_rendering [OF valid_renamePieces(1)]
  have "precompute (template_of renamePieces) styles =
      Inr [(''qmark'', (rendered ''?'' renamePieces,
                        \<lparr>placeholder = ''?'', names = field_names renamePieces\<rparr>)),
           (''pyformat'', (rendered ''%s'' renamePieces,
                           \<lparr>placeholder = ''%s'', names = field_names renamePieces\<rparr>))]"
    by (rule conjunct1)
  then have "precompute ''UPDATE users SET first = {name}, nick = {name} WHERE id = {userId}''
      styles =
      Inr [(''qmark'', (rendered ''?'' renamePieces,
                        \<lparr>placeholder = ''?'', names = field_names renamePieces\<rparr>)),
           (''pyformat'', (rendered ''%s'' renamePieces,
                           \<lparr>placeholder = ''%s'', names = field_names renamePieces\<rparr>))]"
    by (simp only: t)
  then show ?thesis
    using valid_renamePieces(1) t by (simp add: renamePieces_def)
qed

section \<open>Parameter mismatch\<close>

lemma body_raises:
  assumes "body pm proxySelf args kw = Failed e c \<or> body pm proxySelf args kw = NoCursor e"
  shows "(\<exists>msg. e = TypeError msg) \<or> (\<exists>k. e = KeyError k) \<or>
         (\<exists>run cur. pm_load pm proxySelf = Coroutine run \<and> fst (run cur) = Inl e)"
proof (cases "map_of (pm_precomputedSQL pm) (paramstyle (query_connection proxySelf))")
  case None
  with assms show ?thesis by (auto simp: body_def Let_def)
next
  case (Some styled)
  obtain styledSQL styledMap where styled: "styled = (styledSQL, styledMap)" by (cases styled)
  show ?thesis
  proof (cases "bind (pm_sig pm) (PyNone # args) kw")
    case (Inl e')
    with assms Some styled have "e = e'" by (simp add: body_def Let_def)
    with bind_Inl [OF Inl] show ?thesis by simp
  next
    case bound: (Inr bound)
    show ?thesis
    proof (cases "queryArguments styledMap (apply_defaults (pm_sig pm) bound)")
      case (Inl e')
      with assms Some styled bound have "e = e'" by (simp add: body_def Let_def)
      with lookup_each_Inl [OF Inl [unfolded queryArguments_def]] show ?thesis by simp
    next
      case (Inr params)
      let ?cur = "execute (cursor (query_connection proxySelf)) styledSQL params"
      from assms Some styled bound Inr
      have h: "hand_off pm proxySelf ?cur = Failed e c \<or> hand_off pm proxySelf ?cur = NoCursor e"
        by (simp add: body_def Let_def)
      then obtain run where run: "pm_load pm proxySelf = Coroutine run"
        by (cases "pm_load pm proxySelf") (simp_all add: hand_off_def)
      with h have "fst (run ?cur) = Inl e"
        by (auto simp: hand_off_def split: prod.splits sum.splits)
      with run show ?thesis by blast
    qed
  qed
qed

lemma body_iterating:
  assumes "body pm proxySelf args kw = Iterating g c"
  shows "pm_load pm proxySelf = AsyncGen g"
  using assms
  by (auto simp: body_def hand_off_def Let_def
      split: option.splits prod.splits sum.splits MaybeAgen.splits)

lemma consume_raises:
  "consume g k cur = ((vs, Raised e), c) \<Longrightarrow> \<exists>cur'. fst (g cur') = Raise e"
proof (induction k arbitrary: cur vs)
  case 0
  then show ?case by simp
next
  case (Suc k)
  obtain step cur' where g: "g cur = (step, cur')" by (cases "g cur")
  show ?case
  proof (cases step)
    case (Yield v)
    with Suc.prems g obtain vs' where "consume g k cur' = ((vs', Raised e), c)"
      by (auto split: prod.splits)
    from Suc.IH [OF this] show ?thesis .
  next
    case StopAsyncIteration
    with Suc.prems g show ?thesis by simp
  next
    case (Raise e')
    with Suc.prems g have "e' = e" by simp
    with Raise g have "fst (g cur) = Raise e" by simp
    then show ?thesis by blast
  qed
qed

lemma aiter_call_raises:
  assumes "ended (aiter_call pm proxySelf args kw requests) = Raised e"
  shows "e = AttributeError noCursorAttribute \<or>
         (\<exists>g cur. pm_load pm proxySelf = AsyncGen g \<and> fst (g cur) = Raise e)"
proof (cases "body pm proxySelf args kw")
  case (Iterating g c)
  from assms have pos: "0 < requests" by (cases requests) (simp_all add: aiter_call_def)
  obtain vs fin c' where run: "consume g requests c = ((vs, fin), c')"
    by (metis prod.collapse)
  from assms aiter_call_iterating [OF Iterating pos] run have "fin = Raised e" by simp
  with run consume_raises obtain cur where "fst (g cur) = Raise e" by blast
  with body_iterating [OF Iterating] show ?thesis by blast
next
  case (NoCursor e')
  with assms show ?thesis by (cases requests) (simp_all add: aiter_call_def)
next
  case (Failed e' c)
  with assms show ?thesis by (cases requests) (simp_all add: aiter_call_def)
next
  case (Returned v c)
  with assms show ?thesis by (cases requests) (simp_all add: aiter_call_def)
qed

text \<open>
  Claim C3. Take a declaration whose template has the placeholders of \<^verbatim>\<open>ps\<close>. When the set of
  the placeholder names differs from the set of the method's parameter names without the
  receiver, processing the declaration raises \<^verbatim>\<open>ParamMismatch\<close>, which names the method, the
  placeholder names and the parameter names; no proxy method is built, so there is nothing to
  call. When the two sets are equal, the declaration is accepted, and no call of its proxy
  method raises \<^verbatim>\<open>ParamMismatch\<close>, awaited or iterated, whatever the arguments and the
  connection; the user's loader is assumed not to raise \<^verbatim>\<open>ParamMismatch\<close> itself.
\<close>

theorem param_mismatch_at_definition:
  assumes valid: "valid_pieces ps"
    and quiet: "\<forall>db run cur n a b. l db = Coroutine run \<longrightarrow> fst (run cur) \<noteq> Inl (ParamMismatch n a b)"
    and quietGen: "\<forall>db g cur n a b. l db = AsyncGen g \<longrightarrow> fst (g cur) \<noteq> Raise (ParamMismatch n a b)"
  shows "(let selfExcluded = drop 1 (map p_name (m_parameters f));
              declared =
                \<lparr>pm_sig = m_parameters f,
                 pm_precomputedSQL =
                   [(''qmark'', (rendered ''?'' ps,
                                 \<lparr>placeholder = ''?'', names = field_names ps\<rparr>)),
                    (''pyformat'', (rendered ''%s'' ps,
                                    \<lparr>placeholder = ''%s'', names = field_names ps\<rparr>))],
                 pm_load = l\<rparr>
          in (set (field_names ps) \<noteq> set selfExcluded \<longrightarrow>
                query (template_of ps) l f =
                  Inl (ParamMismatch (m_name f) (field_names ps) selfExcluded)) \<and>
             (set (field_names ps) = set selfExcluded \<longrightarrow>
                query (template_of ps) l f = Inr declared \<and>
                (\<forall>proxySelf args kw requests n a b c.
                   body declared proxySelf args kw \<noteq> NoCursor (ParamMismatch n a b) \<and>
                   body declared proxySelf args kw \<noteq> Failed (ParamMismatch n a b) c \<and>
                   ended (aiter_call declared proxySelf args kw requests) \<noteq>
                     Raised (ParamMismatch n a b))))"
proof -
  let ?declared = "\<lparr>pm_sig = m_parameters f,
      pm_precomputedSQL =
        [(''qmark'', (rendered ''?'' ps, \<lparr>placeholder = ''?'', names = field_names ps\<rparr>)),
         (''pyformat'', (rendered ''%s'' ps, \<lparr>placeholder = ''%s'', names = field_names ps\<rparr>))],
      pm_load = l\<rparr>"
  have load: "pm_load ?declared = l" by simp
  have awaited: "body ?declared proxySelf args kw \<noteq> NoCursor (ParamMismatch n a b) \<and>
      body ?declared proxySelf args kw \<noteq> Failed (ParamMismatch n a b) c"
    for proxySelf args kw n a b c
  proof -
    have False
      if "body ?declared proxySelf args kw = Failed (ParamMismatch n a b) c \<or>
          body ?declared proxySelf args kw = NoCursor (ParamMismatch n a b)"
      using body_raises [OF that] quiet by (auto simp only: load exn.distinct)
    then show ?thesis by blast
  qed
  have iterated: "ended (aiter_call ?declared proxySelf args kw requests) \<noteq>
      Raised (ParamMismatch n a b)"
    for proxySelf args kw requests n a b
  proof
    assume "ended (aiter_call ?declared proxySelf args kw requests) = Raised (ParamMismatch n a b)"
    from aiter_call_raises [OF this] quietGen show False
      by (auto simp only: load exn.distinct)
  qed
  show ?thesis
    using awaited iterated by (simp add: Let_def query_pieces [OF valid])
qed

theorem param_mismatch_at_definition_witness:
  "query ''SELECT name FROM users WHERE age >= {minAge} LIMIT {limit}'' zero getName =
     Inl (ParamMismatch ''getName'' [''minAge'', ''limit''] [''userId'']) \<and>
   query ''SELECT name FROM users WHERE id = {userId}'' zero getName = Inr (getNameProxy zero) \<and>
   (\<forall>proxySelf args kw requests n a b c.
      body (getNameProxy zero) proxySelf args kw \<noteq> NoCursor (ParamMismatch n a b) \<and>
      body (getNameProxy zero) proxySelf args kw \<noteq> Failed (ParamMismatch n a b) c \<and>
      ended (aiter_call (getNameProxy zero) proxySelf args kw requests) \<noteq>
        Raised (ParamMismatch n a b))"
proof -
  have valid: "valid_pieces listUsersPieces" "valid_pieces getNamePieces"
    by (simp_all add: listUsersPieces_def getNamePieces_def valid_name_def positional_def
        isDigit_def plain_char_def fieldSpecial_def)
  have quiet: "\<forall>db run cur n a b. zero db = Coroutine run \<longrightarrow>
      fst (run cur) \<noteq> Inl (ParamMismatch n a b)"
    by (auto simp: zero_def zero_run_def fetchone_def split: list.splits)
  have quietGen: "\<forall>db g cur n a b. zero db = AsyncGen g \<longrightarrow>
      fst (g cur) \<noteq> Raise (ParamMismatch n a b)"
    by (simp add: zero_def)
  have t1: "template_of listUsersPieces =
      ''SELECT name FROM users WHERE age >= {minAge} LIMIT {limit}''"
    by (simp add: listUsersPieces_def)
  have t2: "template_of getNamePieces = ''SELECT name FROM users WHERE id = {userId}''"
    by (simp add: getNamePieces_def)
  have refused: "query ''SELECT name FROM users WHERE age >= {minAge} LIMIT {limit}'' zero getName =
      Inl (ParamMismatch ''getName'' [''minAge'', ''limit''] [''userId''])"
    using param_mismatch_at_definition [OF valid(1) quiet quietGen, of getName]
    by (simp add: Let_def t1) (simp add: listUsersPieces_def getName_def)
  have accepted: "query ''SELECT name FROM users WHERE id = {userId}'' zero getName =
        Inr (getNameProxy zero) \<and>
      (\<forall>proxySelf args kw requests n a b c.
         body (getNameProxy zero) proxySelf args kw \<noteq> NoCursor (ParamMismatch n a b) \<and>
         body (getNameProxy zero) proxySelf args kw \<noteq> Failed (ParamMismatch n a b) c \<and>
         ended (aiter_call (getNameProxy zero) proxySelf args kw requests) \<noteq>
           Raised (ParamMismatch n a b))"
    using param_mismatch_at_definition [OF valid(2) quiet quietGen, of getName]
    by (simp add: Let_def t2) (simp add: getNamePieces_def getName_def getNameProxy_def)
  from refused accepted show ?thesis by simp
qed

section \<open>The two dialects\<close>

text \<open>
  Claim C8, as the program has it. Take a declaration whose template has the placeholders of
  \<^verbatim>\<open>ps\<close>. It is accepted exactly when the set of the placeholder names is the set of the
  method's parameter names without the receiver, and the names recorded under \<^verbatim>\<open>qmark\<close> and
  under \<^verbatim>\<open>pyformat\<close> are both the placeholder names in their order of occurrence. For every
  call of an accepted declaration whose arguments bind, there is one list of values, the
  value of the \<^verbatim>\<open>i\<close>-th name of that order among the bound arguments (defaults applied) at
  position \<^verbatim>\<open>i\<close>, and a connection of either style executes its own rendering with this
  list.
\<close>

theorem dialects_deliver_same_arguments:
  assumes valid: "valid_pieces ps"
    and bound: "bind (m_parameters f) (PyNone # args) kw = Inr bound"
    and qmark: "paramstyle (query_connection qmarkSelf) = ''qmark''"
    and pyformat: "paramstyle (query_connection pyformatSelf) = ''pyformat''"
  shows "(let selfExcluded = drop 1 (map p_name (m_parameters f));
              declared =
                \<lparr>pm_sig = m_parameters f,
                 pm_precomputedSQL =
                   [(''qmark'', (rendered ''?'' ps,
                                 \<lparr>placeholder = ''?'', names = field_names ps\<rparr>)),
                    (''pyformat'', (rendered ''%s'' ps,
                                    \<lparr>placeholder = ''%s'', names = field_names ps\<rparr>))],
                 pm_load = l\<rparr>
          in (query (template_of ps) l f = Inr declared) =
               (set (field_names ps) = set selfExcluded) \<and>
             placeholderOrder declared ''qmark'' = field_names ps \<and>
             placeholderOrder declared ''pyformat'' = field_names ps \<and>
             (set (field_names ps) = set selfExcluded \<longrightarrow>
                (\<exists>values.
                   length values = length (field_names ps) \<and>
                   (\<forall>i < length (field_names ps).
                      map_of (apply_defaults (m_parameters f) bound) (field_names ps ! i) =
                        Some (values ! i)) \<and>
                   body declared qmarkSelf args kw =
                     hand_off declared qmarkSelf
                       (execute (cursor (query_connection qmarkSelf)) (rendered ''?'' ps) values) \<and>
                   body declared pyformatSelf args kw =
                     hand_off declared pyformatSelf
                       (execute (cursor (query_connection pyformatSelf)) (rendered ''%s'' ps)
                          values))))"
proof -
  let ?declared = "\<lparr>pm_sig = m_parameters f,
      pm_precomputedSQL =
        [(''qmark'', (rendered ''?'' ps, \<lparr>placeholder = ''?'', names = field_names ps\<rparr>)),
         (''pyformat'', (rendered ''%s'' ps, \<lparr>placeholder = ''%s'', names = field_names ps\<rparr>))],
      pm_load = l\<rparr>"
  have accepted_iff: "(query (template_of ps) l f = Inr ?declared) =
      (set (field_names ps) = set (drop 1 (map p_name (m_parameters f))))"
    by (simp add: query_pieces [OF valid])
  have orders: "placeholderOrder ?declared ''qmark'' = field_names ps"
    "placeholderOrder ?declared ''pyformat'' = field_names ps"
    by (simp_all add: placeholderOrder_def)
  have calls: "\<exists>values.
      length values = length (field_names ps) \<and>
      (\<forall>i < length (field_names ps).
         map_of (apply_defaults (m_parameters f) bound) (field_names ps ! i) = Some (values ! i)) \<and>
      body ?declared qmarkSelf args kw =
        hand_off ?declared qmarkSelf
          (execute (cursor (query_connection qmarkSelf)) (rendered ''?'' ps) values) \<and>
      body ?declared pyformatSelf args kw =
        hand_off ?declared pyformatSelf
          (execute (cursor (query_connection pyformatSelf)) (rendered ''%s'' ps) values)"
    if accepted: "set (field_names ps) = set (drop 1 (map p_name (m_parameters f)))"
  proof -
    have "set (drop 1 (map p_name (m_parameters f))) \<subseteq> set (map p_name (m_parameters f))"
      by (rule set_drop_subset)
    with accepted have names: "set (field_names ps) \<subseteq> p_name ` set (m_parameters f)" by simp
    from call_arguments [OF bound names, of "''?''"] obtain vals where
      q: "queryArguments \<lparr>placeholder = ''?'', names = field_names ps\<rparr>
            (apply_defaults (m_parameters f) bound) = Inr vals"
      and len: "length vals = length (field_names ps)"
      and each: "\<forall>i < length (field_names ps).
          map_of (apply_defaults (m_parameters f) bound) (field_names ps ! i) = Some (vals ! i)"
      by blast
    from q have p: "queryArguments \<lparr>placeholder = ''%s'', names = field_names ps\<rparr>
        (apply_defaults (m_parameters f) bound) = Inr vals"
      by (simp add: queryArguments_def)
    have "body ?declared qmarkSelf args kw =
        hand_off ?declared qmarkSelf
          (execute (cursor (query_connection qmarkSelf)) (rendered ''?'' ps) vals)"
      using bound q qmark by (simp add: body_def Let_def)
    moreover have "body ?declared pyformatSelf args kw =
        hand_off ?declared pyformatSelf
          (execute (cursor (query_connection pyformatSelf)) (rendered ''%s'' ps) vals)"
      using bound p pyformat by (simp add: body_def Let_def)
    ultimately show ?thesis using len each by blast
  qed
  show ?thesis
    unfolding Let_def
    using accepted_iff orders calls by (intro conjI impI)
qed

theorem dialects_deliver_same_arguments_witness:
  "statement renameSQL rename = Inr renameProxy \<and>
   placeholderOrder renameProxy ''qmark'' = [''name'', ''name'', ''userId''] \<and>
   placeholderOrder renameProxy ''pyformat'' = [''name'', ''name'', ''userId''] \<and>
   (\<exists>values.
      length values = 3 \<and> values ! 0 = PyStr ''ann'' \<and> values ! 1 = PyStr ''ann'' \<and>
      values ! 2 = PyInt 7 \<and>
      body renameProxy (usersProxy ''qmark'' []) [PyInt 7, PyStr ''ann''] [] =
        hand_off renameProxy (usersProxy ''qmark'' [])
          (execute (cursor (usersConnection ''qmark'' []))
             ''UPDATE users SET first = ?, nick = ? WHERE id = ?'' values) \<and>
      body renameProxy (usersProxy ''pyformat'' []) [PyInt 7, PyStr ''ann''] [] =
        hand_off renameProxy (usersProxy ''pyformat'' [])
          (execute (cursor (usersConnection ''pyformat'' []))
             ''UPDATE users SET first = %s, nick = %s WHERE id = %s'' values))"
proof -
  let ?bound = "[(''self'', PyNone), (''userId'', PyInt 7), (''name'', PyStr ''ann'')]"
  have bound: "bind (m_parameters rename) (PyNone # [PyInt 7, PyStr ''ann'']) [] = Inr ?bound"
    by (simp add: rename_def bind_def)
  have qmark: "paramstyle (query_connection (usersProxy ''qmark'' [])) = ''qmark''"
    and pyformat: "paramstyle (query_connection (usersProxy ''pyformat'' [])) = ''pyformat''"
    by (simp_all add: usersProxy_def usersConnection_def)
  have declared: "\<lparr>pm_sig = m_parameters rename,
      pm_precomputedSQL =
        [(''qmark'', (rendered ''?'' renamePieces,
                      \<lparr>placeholder = ''?'', names = field_names renamePieces\<rparr>)),
         (''pyformat'', (rendered ''%s'' renamePieces,
                         \<lparr>placeholder = ''%s'', names = field_names renamePieces\<rparr>))],
      pm_load = zero\<rparr> = renameProxy"
    by (simp add: renameProxy_def renamePieces_def)
  have sets: "set (field_names renamePieces) = set (drop 1 (map p_name (m_parameters rename)))"
    by (auto simp: renamePieces_def rename_def)
  have names: "field_names renamePieces = [''name'', ''name'', ''userId'']"
    by (simp add: renamePieces_def)
  have defaults: "apply_defaults (m_parameters rename) ?bound = ?bound"
    by (simp add: rename_def)
  have texts: "rendered ''?'' renamePieces = ''UPDATE users SET first = ?, nick = ? WHERE id = ?''"
    "rendered ''%s'' renamePieces = ''UPDATE users SET first = %s, nick = %s WHERE id = %s''"
    by (simp_all add: renamePieces_def)
  note inst = dialects_deliver_same_arguments [OF valid_renamePieces(1) bound qmark pyformat,
      where l = zero, unfolded Let_def declared valid_renamePieces(2)]
  from inst sets have decl: "statement renameSQL rename = Inr renameProxy"
    by (simp add: statement_def)
  from inst sets obtain vals where
    len: "length vals = length (field_names renamePieces)"
    and each: "\<forall>i < length (field_names renamePieces).
        map_of (apply_defaults (m_parameters rename) ?bound) (field_names renamePieces ! i) =
          Some (vals ! i)"
    and q: "body renameProxy (usersProxy ''qmark'' []) [PyInt 7, PyStr ''ann''] [] =
        hand_off renameProxy (usersProxy ''qmark'' [])
          (execute (cursor (query_connection (usersProxy ''qmark'' [])))
             (rendered ''?'' renamePieces) vals)"
    and p: "body renameProxy (usersProxy ''pyformat'' []) [PyInt 7, PyStr ''ann''] [] =
        hand_off renameProxy (usersProxy ''pyformat'' [])
          (execute (cursor (query_connection (usersProxy ''pyformat'' [])))
             (rendered ''%s'' renamePieces) vals)"
    by blast
  have v0: "vals ! 0 = PyStr ''ann''"
    using each [rule_format, of 0] by (simp add: names defaults)
  have v1: "vals ! 1 = PyStr ''ann''"
    using each [rule_format, of 1] by (simp add: names defaults)
  have v2: "vals ! 2 = PyInt 7"
    using each [rule_format, of 2] by (simp add: names defaults)
  note vals = v0 v1 v2
  from inst have orders: "placeholderOrder renameProxy ''qmark'' = [''name'', ''name'', ''userId'']"
    "placeholderOrder renameProxy ''pyformat'' = [''name'', ''name'', ''userId'']"
    by (simp_all add: names)
  from len have len3: "length vals = 3" by (simp add: names)
  show ?thesis
    using decl orders len3 vals q p
    by (auto simp: texts usersProxy_def intro!: exI [of _ vals])
qed

text \<open>
  Claim C8, as it is written, says that the recorded order has the same multiset of names as
  the declaration's parameters. The statement \<^verbatim>\<open>rename\<close> uses the name \<^verbatim>\<open>name\<close> twice; it is
  accepted, since the two sets are equal, and the recorded order holds \<^verbatim>\<open>name\<close> twice while
  the parameters hold it once.
\<close>

theorem placeholder_multiset_counterexample:
  "statement renameSQL rename = Inr renameProxy \<and>
   placeholderOrder renameProxy ''qmark'' = [''name'', ''name'', ''userId''] \<and>
   placeholderOrder renameProxy ''pyformat'' = [''name'', ''name'', ''userId''] \<and>
   drop 1 (map p_name (m_parameters rename)) = [''userId'', ''name''] \<and>
   mset (placeholderOrder renameProxy ''qmark'') \<noteq> mset (drop 1 (map p_name (m_parameters rename))) \<and>
   mset (placeholderOrder renameProxy ''pyformat'') \<noteq>
     mset (drop 1 (map p_name (m_parameters rename)))"
proof -
  have sets: "set (field_names renamePieces) = set (drop 1 (map p_name (m_parameters rename)))"
    by (auto simp: renamePieces_def rename_def)
  have "query (template_of renamePieces) zero rename = Inr renameProxy"
    by (simp add: query_pieces [OF valid_renamePieces(1)] sets)
      (simp add: renameProxy_def renamePieces_def)
  then have decl: "statement renameSQL rename = Inr renameProxy"
    by (simp add: statement_def valid_renamePieces(2))
  have orders: "placeholderOrder renameProxy ''qmark'' = [''name'', ''name'', ''userId'']"
    "placeholderOrder renameProxy ''pyformat'' = [''name'', ''name'', ''userId'']"
    by (simp_all add: placeholderOrder_def renameProxy_def)
  have params: "drop 1 (map p_name (m_parameters rename)) = [''userId'', ''name'']"
    by (simp add: rename_def)
  have "size (mset [''name'', ''name'', ''userId'']) \<noteq> size (mset [''userId'', ''name''])"
    by simp
  then have differ: "mset [''name'', ''name'', ''userId''] \<noteq> mset [''userId'', ''name'']"
    by (metis (no_types))
  from decl orders params differ show ?thesis by simp
qed

section \<open>Defaults\<close>

lemma omitted_not_bound:
  assumes bound: "bind sig (PyNone # args) kw = Inr bound"
    and names: "distinct (map p_name sig)"
    and later: "p \<in> set (drop (Suc (length args)) sig)"
    and nokw: "map_of kw (p_name p) = None"
  shows "map_of bound (p_name p) = None"
proof -
  have split: "sig = take (Suc (length args)) sig @ drop (Suc (length args)) sig" by simp
  from names have "distinct (map p_name (take (Suc (length args)) sig) @
      map p_name (drop (Suc (length args)) sig))"
    by (metis split map_append)
  then have "set (map p_name (take (Suc (length args)) sig)) \<inter>
      set (map p_name (drop (Suc (length args)) sig)) = {}"
    by simp
  with later have positional: "p_name p \<notin> p_name ` set (take (Suc (length args)) sig)"
    by auto
  from nokw have keyword: "p_name p \<notin> fst ` set kw"
    by (simp add: map_of_eq_None_iff)
  from bind_Inr(3) [OF bound] positional keyword have "p_name p \<notin> fst ` set bound"
    by auto
  then show ?thesis by (simp add: map_of_eq_None_iff)
qed

text \<open>
  Claim C10. Take an accepted declaration whose template has the placeholders of \<^verbatim>\<open>ps\<close>, a
  connection of a supported style, and a call whose arguments bind. Let \<^verbatim>\<open>p\<close> be a parameter
  with the default \<^verbatim>\<open>d\<close> for which the call gives no argument: it lies behind the parameters
  that the positional arguments fill, and no keyword argument has its name. Then the call
  executes the rendering of the connection's style with a list of values that has one value
  for each recorded name and holds \<^verbatim>\<open>d\<close> at every position where the recorded name is the
  name of \<^verbatim>\<open>p\<close>.
\<close>

theorem default_reaches_driver:
  assumes valid: "valid_pieces ps"
    and accepted: "set (field_names ps) = set (drop 1 (map p_name (m_parameters f)))"
    and names: "distinct (map p_name (m_parameters f))"
    and style: "(paramstyle (query_connection proxySelf), token) \<in>
                  {(''qmark'', ''?''), (''pyformat'', ''%s'')}"
    and bound: "bind (m_parameters f) (PyNone # args) kw = Inr bound"
    and later: "p \<in> set (drop (Suc (length args)) (m_parameters f))"
    and nokw: "map_of kw (p_name p) = None"
    and default: "p_default p = Some d"
  shows "\<exists>declared values.
      query (template_of ps) l f = Inr declared \<and>
      body declared proxySelf args kw =
        hand_off declared proxySelf
          (execute (cursor (query_connection proxySelf)) (rendered token ps) values) \<and>
      length values = length (field_names ps) \<and>
      (\<forall>i < length (field_names ps). field_names ps ! i = p_name p \<longrightarrow> values ! i = d)"
proof -
  let ?declared = "\<lparr>pm_sig = m_parameters f,
      pm_precomputedSQL =
        [(''qmark'', (rendered ''?'' ps, \<lparr>placeholder = ''?'', names = field_names ps\<rparr>)),
         (''pyformat'', (rendered ''%s'' ps, \<lparr>placeholder = ''%s'', names = field_names ps\<rparr>))],
      pm_load = l\<rparr>"
  let ?args = "apply_defaults (m_parameters f) bound"
  have declared: "query (template_of ps) l f = Inr ?declared"
    by (simp add: query_pieces [OF valid] accepted)
  have "set (drop 1 (map p_name (m_parameters f))) \<subseteq> set (map p_name (m_parameters f))"
    by (rule set_drop_subset)
  with accepted have sub: "set (field_names ps) \<subseteq> p_name ` set (m_parameters f)" by simp
  from call_arguments [OF bound sub, of token] obtain vals where
    q: "queryArguments \<lparr>placeholder = token, names = field_names ps\<rparr> ?args = Inr vals"
    and len: "length vals = length (field_names ps)"
    and each: "\<forall>i < length (field_names ps). map_of ?args (field_names ps ! i) = Some (vals ! i)"
    by blast
  from later have p: "p \<in> set (m_parameters f)" by (rule in_set_dropD)
  have "map_of bound (p_name p) = None"
    by (rule omitted_not_bound [OF bound names later nokw])
  from apply_defaults_default [OF names p this] default
  have d: "map_of ?args (p_name p) = Some d" by simp
  have at: "\<forall>i < length (field_names ps). field_names ps ! i = p_name p \<longrightarrow> vals ! i = d"
    using each d by auto
  have call: "body ?declared proxySelf args kw =
      hand_off ?declared proxySelf
        (execute (cursor (query_connection proxySelf)) (rendered token ps) vals)"
    using style bound q by (auto simp: body_def Let_def queryArguments_def)
  from declared call len at show ?thesis by blast
qed

theorem default_reaches_driver_witness:
  "\<exists>values.
     query ''SELECT name FROM users WHERE age >= {minAge} LIMIT {limit}'' zero listUsers =
       Inr (listUsersProxy zero) \<and>
     body (listUsersProxy zero) (usersProxy ''pyformat'' []) [PyInt 18] [] =
       hand_off (listUsersProxy zero) (usersProxy ''pyformat'' [])
         (execute (cursor (usersConnection ''pyformat'' []))
            ''SELECT name FROM users WHERE age >= %s LIMIT %s'' values) \<and>
     length values = 2 \<and> values ! 1 = PyInt 10"
proof -
  let ?limit = "\<lparr>p_name = ''limit'', p_default = Some (PyInt 10)\<rparr>"
  have valid: "valid_pieces listUsersPieces"
    by (simp add: listUsersPieces_def valid_name_def positional_def isDigit_def plain_char_def
        fieldSpecial_def)
  have accepted: "set (field_names listUsersPieces) =
      set (drop 1 (map p_name (m_parameters listUsers)))"
    by (auto simp: listUsersPieces_def listUsers_def)
  have names: "distinct (map p_name (m_parameters listUsers))"
    by (simp add: listUsers_def)
  have style: "(paramstyle (query_connection (usersProxy ''pyformat'' [])), ''%s'') \<in>
      {(''qmark'', ''?''), (''pyformat'', ''%s'')}"
    by (simp add: usersProxy_def usersConnection_def)
  have bound: "bind (m_parameters listUsers) (PyNone # [PyInt 18]) [] =
      Inr [(''self'', PyNone), (''minAge'', PyInt 18)]"
    by (simp add: listUsers_def bind_def)
  have later: "?limit \<in> set (drop (Suc (length [PyInt 18])) (m_parameters listUsers))"
    by (simp add: listUsers_def)
  have nokw: "map_of [] (p_name ?limit) = None" by simp
  have default: "p_default ?limit = Some (PyInt 10)" by simp
  have t: "template_of listUsersPieces =
      ''SELECT name FROM users WHERE age >= {minAge} LIMIT {limit}''"
    by (simp add: listUsersPieces_def)
  have declared: "query ''SELECT name FROM users WHERE age >= {minAge} LIMIT {limit}'' zero
      listUsers = Inr (listUsersProxy zero)"
    using query_pieces [OF valid, of zero listUsers] accepted
    by (simp add: t) (simp add: listUsersProxy_def listUsersPieces_def)
  from default_reaches_driver [OF valid accepted names style bound later nokw default,
      where l = zero, unfolded t declared]
  obtain vals where
    "body (listUsersProxy zero) (usersProxy ''pyformat'' []) [PyInt 18] [] =
       hand_off (listUsersProxy zero) (usersProxy ''pyformat'' [])
         (execute (cursor (query_connection (usersProxy ''pyformat'' [])))
            (rendered ''%s'' listUsersPieces) vals)"
    and "length vals = length (field_names listUsersPieces)"
    and "\<forall>i < length (field_names listUsersPieces).
        field_names listUsersPieces ! i = p_name ?limit \<longrightarrow> vals ! i = PyInt 10"
    by auto
  then show ?thesis
    using declared
    by (intro exI [of _ vals]) (simp add: listUsersPieces_def usersProxy_def)
qed

section \<open>The accessor factory: results\<close>

lemma filter_loop_result:
  "filter_loop ignored ns yielded extraneous =
     (yielded @ [(n, pm). (n, Some pm) \<leftarrow> ns],
      extraneous @ [n. (n, None) \<leftarrow> ns, n \<notin> set ignored])"
  by (induction ns arbitrary: yielded extraneous) (auto split: option.splits)

lemma update_fresh:
  "k \<notin> fst ` set al \<Longrightarrow> AList.update k v al = al @ [(k, v)]"
  by (induction al) auto

lemma fold_update_distinct:
  "distinct (map fst (acc @ xs)) \<Longrightarrow>
     fold (\<lambda>(name, metadata). AList.update name metadata) xs acc = acc @ xs"
proof (induction xs arbitrary: acc)
  case Nil
  then show ?case by simp
next
  case (Cons x xs)
  obtain k v where x: "x = (k, v)" by (cases x)
  from Cons.prems x have fresh: "k \<notin> fst ` set acc" by auto
  from Cons.prems x have "distinct (map fst ((acc @ [(k, v)]) @ xs))" by simp
  from Cons.IH [OF this] show ?case by (simp add: x update_fresh [OF fresh])
qed

lemma annotated_member:
  "((k, pm) \<in> set [(n, pm). (n, Some pm) \<leftarrow> ns]) = ((k, Some pm) \<in> set ns)"
  by (induction ns) (auto split: option.splits prod.splits)

lemma annotated_keys:
  "fst ` set [(n, pm). (n, Some pm) \<leftarrow> ns] \<subseteq> fst ` set ns"
proof
  fix k assume "k \<in> fst ` set [(n, pm). (n, Some pm) \<leftarrow> ns]"
  then obtain pm where "(k, pm) \<in> set [(n, pm). (n, Some pm) \<leftarrow> ns]" by force
  then have "(k, Some pm) \<in> set ns" by (simp only: annotated_member)
  then show "k \<in> fst ` set ns" by force
qed

lemma annotated_distinct:
  "distinct (map fst ns) \<Longrightarrow> distinct (map fst [(n, pm). (n, Some pm) \<leftarrow> ns])"
proof (induction ns)
  case Nil
  then show ?case by simp
next
  case (Cons x ns)
  obtain k v where x: "x = (k, v)" by (cases x)
  from Cons.prems x have "k \<notin> fst ` set ns" by auto
  with annotated_keys [of ns] have "k \<notin> fst ` set [(n, pm). (n, Some pm) \<leftarrow> ns]" by blast
  with Cons x show ?case by (cases v) auto
qed

text \<open>
  Claim C6, as the program has it. The items of a protocol's namespace have distinct names.
  The extraneous members are the items without annotation whose name is not among the
  ignored attributes, those of an empty protocol. When there is any, constructing the
  accessor fails with \<^verbatim>\<open>ExtraneousMethods\<close>, which names exactly these, in the order of the
  namespace, and no proxy type is produced. When there is none, the accessor is the type
  \<^verbatim>\<open>_<name>_Accessor\<close> with the base \<^verbatim>\<open>AccessProxy\<close> whose members are exactly the proxy methods of
  the annotated items, under their names and in their order.
\<close>

theorem accessor_members:
  assumes "distinct (map fst ns)"
  shows "accessor ignored protocolName ns =
     (let extraneous = [n. (n, None) \<leftarrow> ns, n \<notin> set ignored] in
      if extraneous \<noteq> [] then Inl (ExtraneousMethods extraneous)
      else Inr \<lparr>type_name = ''_'' @ protocolName @ ''_Accessor'',
                bases = [''AccessProxy''],
                members = [(n, pm). (n, Some pm) \<leftarrow> ns]\<rparr>)"
proof -
  have "distinct (map fst ([] @ [(n, pm). (n, Some pm) \<leftarrow> ns]))"
    using annotated_distinct [OF assms] by simp
  from fold_update_distinct [OF this]
  have "fold (\<lambda>(name, metadata). AList.update name metadata) [(n, pm). (n, Some pm) \<leftarrow> ns] [] =
      [(n, pm). (n, Some pm) \<leftarrow> ns]"
    by simp
  then show ?thesis
    by (simp add: accessor_def filterProtocolNamespace_def filter_loop_result Let_def)
qed

theorem accessor_members_witness:
  "accessor emptyProtocolKeys ''Users'' helperNamespace = Inl (ExtraneousMethods [''helper'']) \<and>
   accessor [] ''Users'' [(''getName'', Some (getNameProxy zero)), (''helper'', None),
       (''count'', None)] =
     Inl (ExtraneousMethods [''helper'', ''count'']) \<and>
   accessor emptyProtocolKeys ''Users'' usersNamespace =
     Inr \<lparr>type_name = ''_Users_Accessor'', bases = [''AccessProxy''],
          members = [(''getName'', getNameProxy zero)]\<rparr>"
proof -
  have d1: "distinct (map fst helperNamespace)" by (simp add: helperNamespace_def)
  have d2: "distinct (map fst [(''getName'', Some (getNameProxy zero)), (''helper'', None),
      (''count'', None)])"
    by simp
  have d3: "distinct (map fst usersNamespace)" by (simp add: usersNamespace_def)
  from accessor_members [OF d1, of emptyProtocolKeys "''Users''"]
    accessor_members [OF d2, of "[]" "''Users''"]
    accessor_members [OF d3, of emptyProtocolKeys "''Users''"]
  show ?thesis
    by (simp add: helperNamespace_def usersNamespace_def emptyProtocolKeys_def Let_def)
qed

text \<open>
  Claim C6, as it is written, says that an interface with a member that has no annotation is
  refused, and that the error names the members without annotation. The namespace
  \<^verbatim>\<open>usersNamespace\<close> has members without annotation, among them the \<^verbatim>\<open>__init__\<close> method that
  the body declares, and the accessor is constructed; \<^verbatim>\<open>helperNamespace\<close> is refused, and the
  error names \<^verbatim>\<open>helper\<close> alone of its members without annotation.
\<close>

theorem ignored_members_counterexample:
  "map_of usersNamespace ''__init__'' = Some None \<and>
   accessor emptyProtocolKeys ''Users'' usersNamespace =
     Inr \<lparr>type_name = ''_Users_Accessor'', bases = [''AccessProxy''],
          members = [(''getName'', getNameProxy zero)]\<rparr> \<and>
   map_of helperNamespace ''__init__'' = Some None \<and>
   map_of helperNamespace ''helper'' = Some None \<and>
   accessor emptyProtocolKeys ''Users'' helperNamespace = Inl (ExtraneousMethods [''helper''])"
  by (simp add: accessor_def filterProtocolNamespace_def usersNamespace_def helperNamespace_def
      emptyProtocolKeys_def)

section \<open>The cursor of a call\<close>

text \<open>
  Claim C1 says that the cursor a call opened is closed exactly once on every exit path. The
  awaitable path of \<^verbatim>\<open>body\<close> closes the cursor after \<^verbatim>\<open>result = await maybeAgen\<close>, with no
  \<^verbatim>\<open>finally\<close>: when the loader raises, \<^verbatim>\<open>cur.close()\<close> is not reached. The example query declared
  with \<^verbatim>\<open>one\<close> and awaited on an empty result set fails with \<^verbatim>\<open>NotEnoughResults\<close> and leaves its
  cursor with no call of \<^verbatim>\<open>close\<close>; the same holds for two rows (\<^verbatim>\<open>TooManyResults\<close>), for a row
  that the loader rejects (\<^verbatim>\<open>WrongRowShape\<close>), for a statement that produced a row, and for a
  call whose arguments do not bind, which fails after \<^verbatim>\<open>conn.cursor()\<close>. A call that returns a
  value closes its cursor once, and so does the iteration of a \<^verbatim>\<open>many\<close> query, whose
  \<^verbatim>\<open>__aiter__\<close> closes the cursor in a \<^verbatim>\<open>finally\<close> clause, also when the loader rejects a row.
\<close>

theorem cursor_left_open_on_failure:
  "one annotationSite loadName = Inr loadOneName \<and>
   many annotationSite loadName = Inr loadManyName \<and>
   body (getNameProxy loadOneName) (usersProxy ''qmark'' []) [] [(''userId'', PyInt 7)] =
     Failed NotEnoughResults (fetchedAll []) \<and>
   close_calls (fetchedAll []) = 0 \<and>
   body (getNameProxy loadOneName) (usersProxy ''qmark'' [[PyStr ''ann''], [PyStr ''bob'']]) []
       [(''userId'', PyInt 7)] =
     Failed (TooManyResults []) (fetchedAll [[PyStr ''ann''], [PyStr ''bob'']]) \<and>
   close_calls (fetchedAll [[PyStr ''ann''], [PyStr ''bob'']]) = 0 \<and>
   body (getNameProxy loadOneName) (usersProxy ''qmark'' [[PyStr ''ann'', PyInt 3]]) []
       [(''userId'', PyInt 7)] =
     Failed
       (WrongRowShape ''app.users'' ''loadName'' [PyStr ''ann'', PyInt 3]
          (TracebackType
             (TracebackType NoTraceback
                \<lparr>co_name = ''<<decorated here>>'', co_filename = ''app/queries.py'',
                 co_firstlineno = 20\<rparr> 0 20)
             \<lparr>co_name = ''<<defined here>>'', co_filename = ''app/users.py'',
              co_firstlineno = 10\<rparr> 0 10)
          (TypeError ''loadName() takes 2 positional arguments''))
       (fetchedAll [[PyStr ''ann'', PyInt 3]]) \<and>
   close_calls (fetchedAll [[PyStr ''ann'', PyInt 3]]) = 0 \<and>
   body (getNameProxy zero) (usersProxy ''qmark'' [[PyStr ''ann'']]) [] [(''userId'', PyInt 7)] =
     Failed (TooManyResults ''statemnts should not return values'')
       (fetchedOne [[PyStr ''ann'']] 1) \<and>
   close_calls (fetchedOne [[PyStr ''ann'']] 1) = 0 \<and>
   body (getNameProxy loadOneName) (usersProxy ''qmark'' [[PyStr ''ann'']]) [] [] =
     Failed (TypeError (''missing a required argument: '' @ quoted ''userId''))
       (cursor (usersConnection ''qmark'' [[PyStr ''ann'']])) \<and>
   close_calls (cursor (usersConnection ''qmark'' [[PyStr ''ann'']])) = 0 \<and>
   body (getNameProxy loadOneName) (usersProxy ''qmark'' [[PyStr ''ann'']]) []
       [(''userId'', PyInt 7)] =
     Returned (PyStr ''ann'') (close (fetchedAll [[PyStr ''ann'']])) \<and>
   close_calls (close (fetchedAll [[PyStr ''ann'']])) = 1 \<and>
   call_cursor (aiter_call (getNameProxy loadManyName)
       (usersProxy ''qmark'' [[PyStr ''ann'', PyInt 3]]) [] [(''userId'', PyInt 7)] 1) =
     Some (close (fetchedOne [[PyStr ''ann'', PyInt 3]] 1)) \<and>
   close_calls (close (fetchedOne [[PyStr ''ann'', PyInt 3]] 1)) = 1"
proof -
  have one: "one annotationSite loadName = Inr loadOneName"
    and many: "many annotationSite loadName = Inr loadManyName"
    by (simp_all add: loadOneName_def loadManyName_def one_def many_def create_def loadName_def)
  have counts: "close_calls (fetchedAll rows) = 0" "close_calls (fetchedOne rows k) = 0"
    "close_calls (close (fetchedAll rows)) = 1" "close_calls (close (fetchedOne rows k)) = 1"
    "close_calls (cursor conn) = 0" for rows k conn
    by (simp_all add: fetchedAll_def fetchedOne_def executedCursor_def execute_def cursor_def
        close_def)
  note defs = loadOneName_def loadManyName_def one_def many_def create_def annotationSite_def
    body_def Let_def getNameProxy_def getName_def usersProxy_def usersConnection_def bind_def
    queryArguments_def hand_off_def translator_def fetchall_def fetchone_def load_row_def
    reraise_def loadName_def zero_def zero_run_def fetchedAll_def fetchedOne_def
    executedCursor_def execute_def cursor_def
  have none: "body (getNameProxy loadOneName) (usersProxy ''qmark'' []) []
      [(''userId'', PyInt 7)] = Failed NotEnoughResults (fetchedAll [])"
    by (simp add: defs)
  have two: "body (getNameProxy loadOneName)
      (usersProxy ''qmark'' [[PyStr ''ann''], [PyStr ''bob'']]) [] [(''userId'', PyInt 7)] =
      Failed (TooManyResults []) (fetchedAll [[PyStr ''ann''], [PyStr ''bob'']])"
    by (simp add: defs)
  have shape: "body (getNameProxy loadOneName) (usersProxy ''qmark'' [[PyStr ''ann'', PyInt 3]])
      [] [(''userId'', PyInt 7)] =
      Failed
        (WrongRowShape ''app.users'' ''loadName'' [PyStr ''ann'', PyInt 3]
           (TracebackType
              (TracebackType NoTraceback
                 \<lparr>co_name = ''<<decorated here>>'', co_filename = ''app/queries.py'',
                  co_firstlineno = 20\<rparr> 0 20)
              \<lparr>co_name = ''<<defined here>>'', co_filename = ''app/users.py'',
               co_firstlineno = 10\<rparr> 0 10)
           (TypeError ''loadName() takes 2 positional arguments''))
        (fetchedAll [[PyStr ''ann'', PyInt 3]])"
    by (simp add: defs)
  have stmt: "body (getNameProxy zero) (usersProxy ''qmark'' [[PyStr ''ann'']]) []
      [(''userId'', PyInt 7)] =
      Failed (TooManyResults ''statemnts should not return values'')
        (fetchedOne [[PyStr ''ann'']] 1)"
    by (simp add: defs)
  have unbound: "body (getNameProxy loadOneName) (usersProxy ''qmark'' [[PyStr ''ann'']]) [] [] =
      Failed (TypeError (''missing a required argument: '' @ quoted ''userId''))
        (cursor (usersConnection ''qmark'' [[PyStr ''ann'']]))"
    by (simp add: defs)
  have returned: "body (getNameProxy loadOneName) (usersProxy ''qmark'' [[PyStr ''ann'']]) []
      [(''userId'', PyInt 7)] = Returned (PyStr ''ann'') (close (fetchedAll [[PyStr ''ann'']]))"
    by (simp add: defs)
  have iterated: "call_cursor (aiter_call (getNameProxy loadManyName)
        (usersProxy ''qmark'' [[PyStr ''ann'', PyInt 3]]) [] [(''userId'', PyInt 7)] 1) =
      Some (close (fetchedOne [[PyStr ''ann'', PyInt 3]] 1))"
    by (simp add: defs aiter_call_def translateMany_def)
  show ?thesis
    by (intro conjI one many none two shape stmt unbound returned iterated counts)
qed

end
